theory Spec2Isabelle
  imports Main "HOL-Library.Sublist"
begin

section \<open>JavaScript strings\<close>

text \<open>
  A JavaScript string is modelled as an Isabelle \<open>string\<close>: a list of code units, here
  restricted to the code units below 256.  The bridge tool prints ASCII, and addresses are
  dotted decimal, so every string the sweep handles is in this range.
\<close>

definition startsWith :: "string \<Rightarrow> string \<Rightarrow> bool" where
  "startsWith s p = (take (length p) s = p)"

fun includes_str :: "string \<Rightarrow> string \<Rightarrow> bool" where
  "includes_str [] sub = (sub = [])"
| "includes_str (c # cs) sub = (startsWith (c # cs) sub \<or> includes_str cs sub)"

definition lastIndexOf :: "string \<Rightarrow> string \<Rightarrow> int" where
  "lastIndexOf s p =
     (case filter (\<lambda>k. startsWith (drop k s) p) (rev [0..<Suc (length s)]) of
        [] \<Rightarrow> - 1
      | k # _ \<Rightarrow> int k)"

definition substring :: "string \<Rightarrow> int \<Rightarrow> int \<Rightarrow> string" where
  "substring s a b =
     (let n = int (length s);
          a' = max 0 (min a n);
          b' = max 0 (min b n);
          lo = min a' b';
          hi = max a' b'
      in take (nat (hi - lo)) (drop (nat lo) s))"

text \<open>The whitespace of \<open>\s\<close> and of \<open>trim\<close>: TAB, LF, VT, FF, CR, space and NBSP.\<close>

definition is_space :: "char \<Rightarrow> bool" where
  "is_space c = (of_char c \<in> {9, 10, 11, 12, 13, 32, 160 :: nat})"

definition trim :: "string \<Rightarrow> string" where
  "trim s = rev (dropWhile is_space (rev (dropWhile is_space s)))"

fun split_str :: "char \<Rightarrow> string \<Rightarrow> string list" where
  "split_str sep [] = [[]]"
| "split_str sep (c # cs) =
     (if c = sep then [] # split_str sep cs
      else (case split_str sep cs of
              [] \<Rightarrow> [[c]]
            | x # xs \<Rightarrow> (c # x) # xs))"

text \<open>Decimal rendering of a non-negative integer, as a template literal prints it.\<close>

definition digit_char :: "nat \<Rightarrow> char" where
  "digit_char d = char_of (48 + d)"

fun show_nat :: "nat \<Rightarrow> string" where
  "show_nat n = (if n < 10 then [digit_char n] else show_nat (n div 10) @ [digit_char (n mod 10)])"

declare show_nat.simps [simp del]


section \<open>Data model\<close>

text \<open>
  The interfaces of the source.  Their fields carry a prefix here, since \<open>id\<close>, \<open>ip\<close>,
  \<open>status\<close> and \<open>model\<close> occur in several of them; an optional field is an \<open>option\<close>.
\<close>

record DeviceInfo =
  di_id :: string
  di_status :: string
  di_model :: "string option"
  di_androidVersion :: "string option"
  di_manufacturer :: "string option"
  di_wireless :: "bool option"

record DiscoveredDevice =
  dd_ip :: string
  dd_status :: string

record KnownDevice =
  kd_id :: string
  kd_ip :: string
  kd_model :: string
  kd_lastConnected :: string

record ConfigType =
  knownDevices :: "KnownDevice list option"

section \<open>The environment\<close>

text \<open>
  Everything the program reads from outside is a field of \<open>env\<close>.  An awaited or
  synchronous child process is answered by \<open>exec_result\<close>, from the number of environment
  calls made so far and the command line; this covers a bridge whose answers change
  from one call to the next.  A probe is a child process that is not awaited where it is
  launched: \<open>probe_result\<close> says how it ends, and \<open>ready i\<close> names the probes whose
  continuations run while iteration \<open>i\<close> of the sweep waits for its device listing
  (\<open>ready 255\<close>: the first to run inside the final join).
\<close>

datatype exec_error = NonZeroExit | SpawnError | TimedOut

record NetworkInterfaceInfo =
  family :: string
  internal :: bool
  address :: string

datatype fileState = Absent | Unreadable | Content string

record env =
  exec_result :: "nat \<Rightarrow> string \<Rightarrow> exec_error + string"
  probe_result :: "string \<Rightarrow> exec_error + string"
  ready :: "nat \<Rightarrow> string list"
  networkInterfaces :: "(string \<times> NetworkInterfaceInfo list option) list"
  now_iso :: "nat \<Rightarrow> string"
  write_failure :: "nat \<Rightarrow> fileState option"

datatype out =
    ConsoleLog string
  | ConsoleError string
  | SpinnerStart string
  | SpinnerSucceed string
  | SpinnerFail string
  | SpinnerStop
  | TableOut "string list" "string list list"

record state =
  calls :: nat
  console :: "out list"
  config :: ConfigType
  configFile :: fileState

definition emit :: "out \<Rightarrow> state \<Rightarrow> state" where
  "emit x s = s\<lparr>console := console s @ [x]\<rparr>"

definition execPromise :: "env \<Rightarrow> string \<Rightarrow> state \<Rightarrow> (exec_error + string) \<times> state" where
  "execPromise e cmd s = (exec_result e (calls s) cmd, s\<lparr>calls := Suc (calls s)\<rparr>)"

section \<open>Local address\<close>

fun firstExternalIPv4 :: "NetworkInterfaceInfo list \<Rightarrow> string option" where
  "firstExternalIPv4 [] = None"
| "firstExternalIPv4 (net # rest) =
     (if family net = ''IPv4'' \<and> \<not> internal net then Some (address net)
      else firstExternalIPv4 rest)"

fun getLocalIpAddress_from :: "(string \<times> NetworkInterfaceInfo list option) list \<Rightarrow> string" where
  "getLocalIpAddress_from [] = ''127.0.0.1''"
| "getLocalIpAddress_from ((name, networkInterface) # rest) =
     (case networkInterface of
        None \<Rightarrow> getLocalIpAddress_from rest
      | Some infos \<Rightarrow>
          (case firstExternalIPv4 infos of
             Some a \<Rightarrow> a
           | None \<Rightarrow> getLocalIpAddress_from rest))"

definition getLocalIpAddress :: "env \<Rightarrow> string" where
  "getLocalIpAddress e = getLocalIpAddress_from (networkInterfaces e)"

section \<open>Listing the connected devices\<close>

text \<open>The pattern \<open>/^(\S+)\s+(\S+)/\<close> on one line: both groups are maximal runs.\<close>

definition match_line :: "string \<Rightarrow> (string \<times> string) option" where
  "match_line line =
     (let g1 = takeWhile (\<lambda>c. \<not> is_space c) line;
          r1 = dropWhile (\<lambda>c. \<not> is_space c) line;
          r2 = dropWhile is_space r1;
          g2 = takeWhile (\<lambda>c. \<not> is_space c) r2
      in if g1 \<noteq> [] \<and> takeWhile is_space r1 \<noteq> [] \<and> g2 \<noteq> [] then Some (g1, g2) else None)"

definition getprop_cmd :: "string \<Rightarrow> string \<Rightarrow> string" where
  "getprop_cmd ident prop = ''adb -s '' @ ident @ '' shell getprop '' @ prop"

text \<open>The inner \<open>try\<close> block: the first query that fails ends it, keeping what was set.\<close>

definition queryProps :: "env \<Rightarrow> DeviceInfo \<Rightarrow> state \<Rightarrow> DeviceInfo \<times> state" where
  "queryProps e d s =
     (case execPromise e (getprop_cmd (di_id d) ''ro.product.model'') s of
        (Inl _, s1) \<Rightarrow> (d, s1)
      | (Inr model, s1) \<Rightarrow>
          (let d1 = d\<lparr>di_model := Some (trim model)\<rparr> in
           case execPromise e (getprop_cmd (di_id d) ''ro.build.version.release'') s1 of
             (Inl _, s2) \<Rightarrow> (d1, s2)
           | (Inr version, s2) \<Rightarrow>
               (let d2 = d1\<lparr>di_androidVersion := Some (trim version)\<rparr> in
                case execPromise e (getprop_cmd (di_id d) ''ro.product.manufacturer'') s2 of
                  (Inl _, s3) \<Rightarrow> (d2, s3)
                | (Inr manufacturer, s3) \<Rightarrow>
                    (d2\<lparr>di_manufacturer := Some (trim manufacturer),
                        di_wireless := Some (includes_str (di_id d) '':'')\<rparr>, s3))))"

fun parseLines :: "env \<Rightarrow> string list \<Rightarrow> DeviceInfo list \<Rightarrow> state \<Rightarrow> DeviceInfo list \<times> state" where
  "parseLines e [] devices s = (devices, s)"
| "parseLines e (line # rest) devices s =
     (case match_line line of
        None \<Rightarrow> parseLines e rest devices s
      | Some (ident, status) \<Rightarrow>
          (let deviceInfo = \<lparr>di_id = ident, di_status = status, di_model = None,
                             di_androidVersion = None, di_manufacturer = None,
                             di_wireless = None\<rparr>;
               (deviceInfo', s1) =
                 (if status = ''device'' then queryProps e deviceInfo s else (deviceInfo, s))
           in parseLines e rest (devices @ [deviceInfo']) s1))"

definition getConnectedDevices :: "env \<Rightarrow> state \<Rightarrow> DeviceInfo list \<times> state" where
  "getConnectedDevices e s =
     (case execPromise e ''adb devices'' s of
        (Inl _, s1) \<Rightarrow> ([], emit (ConsoleError ''Error getting devices:'') s1)
      | (Inr stdout, s1) \<Rightarrow> parseLines e (drop 1 (split_str (CHR 0x0A) stdout)) [] s1)"

section \<open>The discovery sweep\<close>

text \<open>
  The state of one sweep: the hosts collected so far, the addresses whose probe is still
  outstanding (the unsettled members of \<open>promises\<close>), and the command lines of the probes
  launched so far.
\<close>

record sweep =
  discoveredDevices :: "DiscoveredDevice list"
  pending :: "string list"
  launched :: "string list"

definition connect_cmd :: "string \<Rightarrow> string" where
  "connect_cmd ip = ''adb connect '' @ ip @ '':5555''"

text \<open>
  The continuation of the probe of \<open>ip\<close>: \<open>then\<close> appends the host, \<open>catch\<close> does
  nothing.  It runs once, when the probe has settled.
\<close>

definition settle :: "env \<Rightarrow> string \<Rightarrow> sweep \<Rightarrow> sweep" where
  "settle e ip w =
     (if ip \<in> set (pending w) then
        (let w1 = w\<lparr>pending := remove1 ip (pending w)\<rparr> in
         case probe_result e (connect_cmd ip) of
           Inr _ \<Rightarrow> w1\<lparr>discoveredDevices :=
                        discoveredDevices w1 @ [\<lparr>dd_ip = ip, dd_status = ''discoverable''\<rparr>]\<rparr>
         | Inl _ \<Rightarrow> w1)
      else w)"

definition run_ready :: "env \<Rightarrow> string list \<Rightarrow> sweep \<Rightarrow> sweep" where
  "run_ready e ips w = fold (settle e) ips w"

definition isAlreadyConnected :: "DeviceInfo list \<Rightarrow> string \<Rightarrow> bool" where
  "isAlreadyConnected connectedDevices ip =
     list_ex (\<lambda>device. includes_str (di_id device) ip \<or> startsWith (di_id device) ip)
       connectedDevices"

definition sweep_body :: "env \<Rightarrow> string \<Rightarrow> string \<Rightarrow> nat \<Rightarrow> sweep \<times> state \<Rightarrow> sweep \<times> state" where
  "sweep_body e localIp ipBase i x =
     (case x of (w, s) \<Rightarrow>
        (let ip = ipBase @ show_nat i;
             (connectedDevices, s1) = getConnectedDevices e s;
             w1 = run_ready e (ready e i) w
         in if isAlreadyConnected connectedDevices ip then
              (w1\<lparr>discoveredDevices :=
                    discoveredDevices w1 @ [\<lparr>dd_ip = ip, dd_status = ''connected''\<rparr>]\<rparr>, s1)
            else if ip = localIp then (w1, s1)
            else (w1\<lparr>pending := pending w1 @ [ip],
                     launched := launched w1 @ [connect_cmd ip]\<rparr>, s1)))"

function sweep_loop :: "env \<Rightarrow> string \<Rightarrow> string \<Rightarrow> nat \<Rightarrow> sweep \<times> state \<Rightarrow> sweep \<times> state" where
  "sweep_loop e localIp ipBase i x =
     (if i < 255 then sweep_loop e localIp ipBase (Suc i) (sweep_body e localIp ipBase i x)
      else x)"
  by pat_completeness auto
termination
  by (relation "measure (\<lambda>(e, localIp, ipBase, i, x). 255 - i)") auto

declare sweep_loop.simps [simp del]

definition ipBase_of :: "string \<Rightarrow> string" where
  "ipBase_of localIp = substring localIp 0 (lastIndexOf localIp ''.'' + 1)"

text \<open>
  \<open>Promise.allSettled\<close>: the sweep goes on when every outstanding probe has settled and
  its continuation has run.  A probe settles in any case, by its 500 ms timeout at the
  latest, which \<open>probe_result\<close> reports as \<open>TimedOut\<close>.
\<close>

definition allSettled :: "env \<Rightarrow> sweep \<Rightarrow> sweep" where
  "allSettled e w = run_ready e (ready e 255 @ pending w) w"

text \<open>
  \<open>discoverDevices\<close> returns the collected hosts; the model returns the record of the
  sweep beside them, for the probes it launched.  Nothing in its \<open>try\<close> block throws:
  \<open>getConnectedDevices\<close> catches its own failures and each probe has its own \<open>catch\<close>.
  So the handler that prints "Device discovery failed" is not a branch of the function.
\<close>

definition discoverDevices :: "env \<Rightarrow> state \<Rightarrow> (DiscoveredDevice list \<times> sweep) \<times> state" where
  "discoverDevices e s =
     (let s0 = emit (SpinnerStart ''Discovering devices on network...'') s;
          localIp = getLocalIpAddress e;
          ipBase = ipBase_of localIp;
          (w, s1) = sweep_loop e localIp ipBase 1
                      (\<lparr>discoveredDevices = [], pending = [], launched = []\<rparr>, s0);
          w' = allSettled e w;
          s2 = emit (SpinnerSucceed ''Device discovery completed'') s1
      in ((discoveredDevices w', w'), s2))"


section \<open>The preference store\<close>

subsection \<open>JSON text\<close>

text \<open>
  \<open>JSON.parse\<close> is modelled by a lexer and a pushdown recogniser of the JSON grammar
  (ECMA-404).  A string value is a list of code units, since a \<open>\u\<close> escape can name any
  of them; a number keeps its literal text (its numeric value is never inspected).
\<close>

datatype json =
    JNull
  | JBool bool
  | JNumber string
  | JString "nat list"
  | JArray "json list"
  | JObject "(nat list \<times> json) list"

datatype token =
    LBrace | RBrace | LBracket | RBracket | Colon | Comma
  | TString "nat list" | TNumber string | TTrue | TFalse | TNull

datatype lmode =
    LNormal
  | LString "nat list"
  | LEscape "nat list"
  | LUnicode "nat list" nat nat
  | LNumber string
  | LWord string

definition is_json_ws :: "char \<Rightarrow> bool" where
  "is_json_ws c = (of_char c \<in> {32, 9, 10, 13 :: nat})"

definition is_digit :: "char \<Rightarrow> bool" where
  "is_digit c = (48 \<le> (of_char c :: nat) \<and> (of_char c :: nat) \<le> 57)"

definition is_number_char :: "char \<Rightarrow> bool" where
  "is_number_char c = (is_digit c \<or> c \<in> set ''+-.eE'')"

definition is_lower :: "char \<Rightarrow> bool" where
  "is_lower c = (97 \<le> (of_char c :: nat) \<and> (of_char c :: nat) \<le> 122)"

definition hex_val :: "char \<Rightarrow> nat option" where
  "hex_val c =
     (let n = (of_char c :: nat) in
      if 48 \<le> n \<and> n \<le> 57 then Some (n - 48)
      else if 97 \<le> n \<and> n \<le> 102 then Some (n - 87)
      else if 65 \<le> n \<and> n \<le> 70 then Some (n - 55)
      else None)"

text \<open>The number grammar: \<open>-? (0 | [1-9][0-9]*) (. [0-9]+)? ([eE] [+-]? [0-9]+)?\<close>.\<close>

definition valid_exponent :: "string \<Rightarrow> bool" where
  "valid_exponent r =
     (case r of
        [] \<Rightarrow> True
      | c # r1 \<Rightarrow>
          (c = CHR ''e'' \<or> c = CHR ''E'') \<and>
          (let r2 = (case r1 of [] \<Rightarrow> [] | d # r3 \<Rightarrow> if d = CHR ''+'' \<or> d = CHR ''-'' then r3 else r1)
           in r2 \<noteq> [] \<and> list_all is_digit r2))"

definition valid_fraction :: "string \<Rightarrow> bool" where
  "valid_fraction r =
     (case r of
        [] \<Rightarrow> True
      | c # r1 \<Rightarrow>
          if c = CHR ''.'' then takeWhile is_digit r1 \<noteq> [] \<and> valid_exponent (dropWhile is_digit r1)
          else valid_exponent r)"

definition valid_number :: "string \<Rightarrow> bool" where
  "valid_number l =
     (let u = (case l of [] \<Rightarrow> [] | c # r \<Rightarrow> if c = CHR ''-'' then r else l);
          ds = takeWhile is_digit u
      in ds \<noteq> [] \<and> (ds = ''0'' \<or> take 1 ds \<noteq> ''0'') \<and> valid_fraction (dropWhile is_digit u))"

definition flush_number :: "string \<Rightarrow> token list \<Rightarrow> token list option" where
  "flush_number l ts = (if valid_number l then Some (ts @ [TNumber l]) else None)"

definition flush_word :: "string \<Rightarrow> token list \<Rightarrow> token list option" where
  "flush_word w ts =
     (if w = ''true'' then Some (ts @ [TTrue])
      else if w = ''false'' then Some (ts @ [TFalse])
      else if w = ''null'' then Some (ts @ [TNull])
      else None)"

definition normal_step :: "token list \<Rightarrow> char \<Rightarrow> (lmode \<times> token list) option" where
  "normal_step ts c =
     (if is_json_ws c then Some (LNormal, ts)
      else if c = CHR ''{'' then Some (LNormal, ts @ [LBrace])
      else if c = CHR ''}'' then Some (LNormal, ts @ [RBrace])
      else if c = CHR ''['' then Some (LNormal, ts @ [LBracket])
      else if c = CHR '']'' then Some (LNormal, ts @ [RBracket])
      else if c = CHR '':'' then Some (LNormal, ts @ [Colon])
      else if c = CHR '','' then Some (LNormal, ts @ [Comma])
      else if c = CHR 0x22 then Some (LString [], ts)
      else if c = CHR ''-'' \<or> is_digit c then Some (LNumber [c], ts)
      else if is_lower c then Some (LWord [c], ts)
      else None)"

definition escape_step :: "nat list \<Rightarrow> token list \<Rightarrow> char \<Rightarrow> (lmode \<times> token list) option" where
  "escape_step s ts c =
     (if c = CHR 0x22 then Some (LString (s @ [34]), ts)
      else if c = CHR 0x5C then Some (LString (s @ [92]), ts)
      else if c = CHR ''/'' then Some (LString (s @ [47]), ts)
      else if c = CHR ''b'' then Some (LString (s @ [8]), ts)
      else if c = CHR ''f'' then Some (LString (s @ [12]), ts)
      else if c = CHR ''n'' then Some (LString (s @ [10]), ts)
      else if c = CHR ''r'' then Some (LString (s @ [13]), ts)
      else if c = CHR ''t'' then Some (LString (s @ [9]), ts)
      else if c = CHR ''u'' then Some (LUnicode s 0 0, ts)
      else None)"

fun lex_step :: "lmode \<times> token list \<Rightarrow> char \<Rightarrow> (lmode \<times> token list) option" where
  "lex_step (LNormal, ts) c = normal_step ts c"
| "lex_step (LString s, ts) c =
     (if c = CHR 0x22 then Some (LNormal, ts @ [TString s])
      else if c = CHR 0x5C then Some (LEscape s, ts)
      else if (of_char c :: nat) < 32 then None
      else Some (LString (s @ [of_char c]), ts))"
| "lex_step (LEscape s, ts) c = escape_step s ts c"
| "lex_step (LUnicode s n k, ts) c =
     (case hex_val c of
        None \<Rightarrow> None
      | Some h \<Rightarrow>
          if k = 3 then Some (LString (s @ [n * 16 + h]), ts)
          else Some (LUnicode s (n * 16 + h) (Suc k), ts))"
| "lex_step (LNumber l, ts) c =
     (if is_number_char c then Some (LNumber (l @ [c]), ts)
      else (case flush_number l ts of None \<Rightarrow> None | Some ts' \<Rightarrow> normal_step ts' c))"
| "lex_step (LWord w, ts) c =
     (if is_lower c then Some (LWord (w @ [c]), ts)
      else (case flush_word w ts of None \<Rightarrow> None | Some ts' \<Rightarrow> normal_step ts' c))"

fun lex_end :: "lmode \<times> token list \<Rightarrow> token list option" where
  "lex_end (LNormal, ts) = Some ts"
| "lex_end (LNumber l, ts) = flush_number l ts"
| "lex_end (LWord w, ts) = flush_word w ts"
| "lex_end (_, ts) = None"

fun lex_run :: "lmode \<times> token list \<Rightarrow> string \<Rightarrow> token list option" where
  "lex_run st [] = lex_end st"
| "lex_run st (c # cs) = (case lex_step st c of None \<Rightarrow> None | Some st' \<Rightarrow> lex_run st' cs)"

definition tokenize :: "string \<Rightarrow> token list option" where
  "tokenize text = lex_run (LNormal, []) text"

text \<open>
  The recogniser keeps the open arrays and objects on a stack; \<open>FKey\<close> is an object whose
  next member has its key and awaits its value.
\<close>

datatype frame =
    FArr "json list"
  | FObj "(nat list \<times> json) list"
  | FKey "(nat list \<times> json) list" "nat list"

datatype phase = PValue | PValueOrClose | PKeyOrClose | PKey | PColon | PAfter | PDone json

fun push_value :: "json \<Rightarrow> frame list \<Rightarrow> (phase \<times> frame list) option" where
  "push_value v [] = Some (PDone v, [])"
| "push_value v (FArr vs # st) = Some (PAfter, FArr (vs @ [v]) # st)"
| "push_value v (FKey ms k # st) = Some (PAfter, FObj (ms @ [(k, v)]) # st)"
| "push_value v (FObj ms # st) = None"

fun close_array :: "frame list \<Rightarrow> (phase \<times> frame list) option" where
  "close_array (FArr vs # st) = push_value (JArray vs) st"
| "close_array _ = None"

fun close_object :: "frame list \<Rightarrow> (phase \<times> frame list) option" where
  "close_object (FObj ms # st) = push_value (JObject ms) st"
| "close_object _ = None"

fun open_key :: "nat list \<Rightarrow> frame list \<Rightarrow> (phase \<times> frame list) option" where
  "open_key k (FObj ms # st) = Some (PColon, FKey ms k # st)"
| "open_key k _ = None"

fun value_step :: "frame list \<Rightarrow> token \<Rightarrow> (phase \<times> frame list) option" where
  "value_step st LBracket = Some (PValueOrClose, FArr [] # st)"
| "value_step st LBrace = Some (PKeyOrClose, FObj [] # st)"
| "value_step st (TString s) = push_value (JString s) st"
| "value_step st (TNumber l) = push_value (JNumber l) st"
| "value_step st TTrue = push_value (JBool True) st"
| "value_step st TFalse = push_value (JBool False) st"
| "value_step st TNull = push_value JNull st"
| "value_step st _ = None"

fun after_step :: "frame list \<Rightarrow> token \<Rightarrow> (phase \<times> frame list) option" where
  "after_step (FArr vs # st) Comma = Some (PValue, FArr vs # st)"
| "after_step (FObj ms # st) Comma = Some (PKey, FObj ms # st)"
| "after_step st RBracket = close_array st"
| "after_step st RBrace = close_object st"
| "after_step st _ = None"

fun parse_step :: "phase \<times> frame list \<Rightarrow> token \<Rightarrow> (phase \<times> frame list) option" where
  "parse_step (PValue, st) t = value_step st t"
| "parse_step (PValueOrClose, st) t = (if t = RBracket then close_array st else value_step st t)"
| "parse_step (PKeyOrClose, st) t =
     (case t of RBrace \<Rightarrow> close_object st | TString k \<Rightarrow> open_key k st | _ \<Rightarrow> None)"
| "parse_step (PKey, st) t = (case t of TString k \<Rightarrow> open_key k st | _ \<Rightarrow> None)"
| "parse_step (PColon, st) t = (if t = Colon then Some (PValue, st) else None)"
| "parse_step (PAfter, st) t = after_step st t"
| "parse_step (PDone v, st) t = None"

fun parse_run :: "phase \<times> frame list \<Rightarrow> token list \<Rightarrow> json option" where
  "parse_run (PDone v, []) [] = Some v"
| "parse_run st [] = None"
| "parse_run st (t # ts) = (case parse_step st t of None \<Rightarrow> None | Some st' \<Rightarrow> parse_run st' ts)"

definition JSON_parse :: "string \<Rightarrow> json option" where
  "JSON_parse text =
     (case tokenize text of None \<Rightarrow> None | Some ts \<Rightarrow> parse_run (PValue, []) ts)"

subsection \<open>\<open>JSON.stringify(config, null, 2)\<close> at the type \<open>ConfigType\<close>\<close>

definition hex_digit :: "nat \<Rightarrow> char" where
  "hex_digit d = ''0123456789abcdef'' ! d"

text \<open>\<open>QuoteJSONString\<close>, one code unit at a time.\<close>

definition quote_char :: "char \<Rightarrow> string" where
  "quote_char c =
     (let n = (of_char c :: nat) in
      if n = 8 then [CHR 0x5C, CHR ''b'']
      else if n = 9 then [CHR 0x5C, CHR ''t'']
      else if n = 10 then [CHR 0x5C, CHR ''n'']
      else if n = 12 then [CHR 0x5C, CHR ''f'']
      else if n = 13 then [CHR 0x5C, CHR ''r'']
      else if n = 34 then [CHR 0x5C, CHR 0x22]
      else if n = 92 then [CHR 0x5C, CHR 0x5C]
      else if n < 32 then [CHR 0x5C, CHR ''u'', CHR ''0'', CHR ''0'', hex_digit (n div 16), hex_digit (n mod 16)]
      else [c])"

definition quote :: "string \<Rightarrow> string" where
  "quote s = [CHR 0x22] @ concat (map quote_char s) @ [CHR 0x22]"

definition nl :: "nat \<Rightarrow> string" where
  "nl k = CHR 0x0A # replicate k (CHR '' '')"

definition stringify_KnownDevice :: "KnownDevice \<Rightarrow> string" where
  "stringify_KnownDevice d =
     ''{'' @ nl 6 @ quote ''id'' @ '': '' @ quote (kd_id d) @
     '','' @ nl 6 @ quote ''ip'' @ '': '' @ quote (kd_ip d) @
     '','' @ nl 6 @ quote ''model'' @ '': '' @ quote (kd_model d) @
     '','' @ nl 6 @ quote ''lastConnected'' @ '': '' @ quote (kd_lastConnected d) @
     nl 4 @ ''}''"

fun join_with :: "string \<Rightarrow> string list \<Rightarrow> string" where
  "join_with sep [] = []"
| "join_with sep [x] = x"
| "join_with sep (x # y # ys) = x @ sep @ join_with sep (y # ys)"

definition stringify_knownDevices :: "KnownDevice list \<Rightarrow> string" where
  "stringify_knownDevices ds =
     (if ds = [] then ''[]''
      else ''['' @ nl 4 @ join_with ('','' @ nl 4) (map stringify_KnownDevice ds) @ nl 2 @ '']'')"

definition JSON_stringify :: "ConfigType \<Rightarrow> string" where
  "JSON_stringify cfg =
     (case knownDevices cfg of
        None \<Rightarrow> ''{}''
      | Some ds \<Rightarrow> ''{'' @ nl 2 @ quote ''knownDevices'' @ '': '' @ stringify_knownDevices ds @ nl 0 @ ''}'')"

subsection \<open>Reading a parsed value at the type \<open>ConfigType\<close>\<close>

text \<open>
  The assignment \<open>config = JSON.parse(...)\<close> is an unchecked cast.  \<open>as_config\<close> gives
  the value at the declared type when it has that type, and \<open>None\<close> when it has not (or
  when a string has a code unit above 255): the typed model says nothing about the
  program's run on such a value.  Property access finds the last member of a name.
\<close>

definition code_units :: "string \<Rightarrow> nat list" where
  "code_units s = map of_char s"

definition as_string :: "nat list \<Rightarrow> string option" where
  "as_string u = (if list_all (\<lambda>n. n < 256) u then Some (map char_of u) else None)"

definition property :: "string \<Rightarrow> (nat list \<times> json) list \<Rightarrow> json option" where
  "property name ms = map_of (rev ms) (code_units name)"

definition str_property :: "string \<Rightarrow> (nat list \<times> json) list \<Rightarrow> string option" where
  "str_property name ms = (case property name ms of Some (JString u) \<Rightarrow> as_string u | _ \<Rightarrow> None)"

fun as_device :: "json \<Rightarrow> KnownDevice option" where
  "as_device (JObject ms) =
     (case (str_property ''id'' ms, str_property ''ip'' ms, str_property ''model'' ms,
            str_property ''lastConnected'' ms) of
        (Some a, Some b, Some c, Some d) \<Rightarrow>
          Some \<lparr>kd_id = a, kd_ip = b, kd_model = c, kd_lastConnected = d\<rparr>
      | _ \<Rightarrow> None)"
| "as_device _ = None"

fun as_devices :: "json list \<Rightarrow> KnownDevice list option" where
  "as_devices [] = Some []"
| "as_devices (v # vs) =
     (case as_device v of
        None \<Rightarrow> None
      | Some d \<Rightarrow> (case as_devices vs of None \<Rightarrow> None | Some ds \<Rightarrow> Some (d # ds)))"

fun as_config :: "json \<Rightarrow> ConfigType option" where
  "as_config (JObject ms) =
     (case property ''knownDevices'' ms of
        None \<Rightarrow> Some \<lparr>knownDevices = None\<rparr>
      | Some (JArray vs) \<Rightarrow>
          (case as_devices vs of None \<Rightarrow> None | Some ds \<Rightarrow> Some \<lparr>knownDevices = Some ds\<rparr>)
      | Some _ \<Rightarrow> None)"
| "as_config _ = None"

text \<open>A missing \<open>knownDevices\<close> counts as the empty list wherever the program reads it.\<close>

definition knownList :: "ConfigType \<Rightarrow> KnownDevice list" where
  "knownList cfg = (case knownDevices cfg of None \<Rightarrow> [] | Some ds \<Rightarrow> ds)"

subsection \<open>Loading and saving\<close>

datatype load_result = Loaded state | OutsideConfigType json

text \<open>The start of the program: \<open>config\<close> is \<open>{}\<close>, then the file is read if it exists.\<close>

definition loadConfig :: "state \<Rightarrow> load_result" where
  "loadConfig s =
     (let s0 = s\<lparr>config := \<lparr>knownDevices = None\<rparr>\<rparr> in
      case configFile s of
        Absent \<Rightarrow> Loaded s0
      | Unreadable \<Rightarrow> Loaded (emit (ConsoleError ''Error loading config:'') s0)
      | Content text \<Rightarrow>
          (case JSON_parse text of
             None \<Rightarrow> Loaded (emit (ConsoleError ''Error loading config:'') s0)
           | Some j \<Rightarrow>
               (case as_config j of
                  Some cfg \<Rightarrow> Loaded (s0\<lparr>config := cfg\<rparr>)
                | None \<Rightarrow> OutsideConfigType j)))"

text \<open>\<open>saveConfig\<close> returns whether \<open>writeFileSync\<close> returned (\<open>False\<close>: it threw).\<close>

definition saveConfig :: "env \<Rightarrow> state \<Rightarrow> bool \<times> state" where
  "saveConfig e s =
     (case write_failure e (calls s) of
        None \<Rightarrow> (True, s\<lparr>calls := Suc (calls s), configFile := Content (JSON_stringify (config s))\<rparr>)
      | Some f \<Rightarrow> (False, s\<lparr>calls := Suc (calls s), configFile := f\<rparr>))"

subsection \<open>The tokens and the value of a stringified configuration\<close>

text \<open>Used to relate \<open>JSON_stringify\<close> and \<open>JSON_parse\<close>: what the lexer and the recogniser
  are shown to produce on the text of a configuration.\<close>

definition device_tokens :: "KnownDevice \<Rightarrow> token list" where
  "device_tokens d =
     [LBrace, TString (code_units ''id''), Colon, TString (code_units (kd_id d)), Comma,
      TString (code_units ''ip''), Colon, TString (code_units (kd_ip d)), Comma,
      TString (code_units ''model''), Colon, TString (code_units (kd_model d)), Comma,
      TString (code_units ''lastConnected''), Colon, TString (code_units (kd_lastConnected d)),
      RBrace]"

fun join_tokens :: "KnownDevice list \<Rightarrow> token list" where
  "join_tokens [] = []"
| "join_tokens [d] = device_tokens d"
| "join_tokens (d # d' # ds) = device_tokens d @ [Comma] @ join_tokens (d' # ds)"

definition device_json :: "KnownDevice \<Rightarrow> json" where
  "device_json d =
     JObject [(code_units ''id'', JString (code_units (kd_id d))),
              (code_units ''ip'', JString (code_units (kd_ip d))),
              (code_units ''model'', JString (code_units (kd_model d))),
              (code_units ''lastConnected'', JString (code_units (kd_lastConnected d)))]"

definition config_tokens :: "ConfigType \<Rightarrow> token list" where
  "config_tokens cfg =
     (case knownDevices cfg of
        None \<Rightarrow> [LBrace, RBrace]
      | Some ds \<Rightarrow> [LBrace, TString (code_units ''knownDevices''), Colon, LBracket] @
                   join_tokens ds @ [RBracket, RBrace])"

definition config_json :: "ConfigType \<Rightarrow> json" where
  "config_json cfg =
     (case knownDevices cfg of
        None \<Rightarrow> JObject []
      | Some ds \<Rightarrow> JObject [(code_units ''knownDevices'', JArray (map device_json ds))])"

section \<open>Enabling wireless debugging\<close>

text \<open>
  \<open>parseInt\<close> with no radix: leading blanks, a sign, \<open>0x\<close> for base 16, then the longest
  run of digits; \<open>None\<close> is \<open>NaN\<close>.  The result is the exact integer: rounding to a double
  keeps its order with 11, the only use made of it.
\<close>

definition radix_digit :: "nat \<Rightarrow> char \<Rightarrow> nat option" where
  "radix_digit r c =
     (case hex_val c of
        None \<Rightarrow> None
      | Some v \<Rightarrow> if v < r then Some v else None)"

definition parseInt :: "string \<Rightarrow> int option" where
  "parseInt str =
     (let S = dropWhile is_space str;
          (sign, S1) = (case S of
                          [] \<Rightarrow> (1 :: int, S)
                        | c # r \<Rightarrow> if c = CHR ''-'' then (- 1, r)
                                   else if c = CHR ''+'' then (1, r) else (1, S));
          (R, S2) = (case S1 of
                       c # x # r \<Rightarrow> if c = CHR ''0'' \<and> (x = CHR ''x'' \<or> x = CHR ''X'')
                                      then (16 :: nat, r) else (10, S1)
                     | _ \<Rightarrow> (10, S1));
          Z = takeWhile (\<lambda>c. radix_digit R c \<noteq> None) S2
      in if Z = [] then None
         else Some (sign * int (foldl (\<lambda>a c. a * R + (case radix_digit R c of None \<Rightarrow> 0 | Some v \<Rightarrow> v)) 0 Z)))"

definition firstPart :: "string \<Rightarrow> string" where
  "firstPart s = (case split_str (CHR ''.'') s of [] \<Rightarrow> [] | x # _ \<Rightarrow> x)"

definition isAndroid11Plus :: "string \<Rightarrow> bool" where
  "isAndroid11Plus version =
     (case parseInt (firstPart (trim version)) of None \<Rightarrow> False | Some androidVersion \<Rightarrow> 11 \<le> androidVersion)"

definition route_cmd :: "string \<Rightarrow> string" where
  "route_cmd deviceId =
     ''adb -s '' @ deviceId @ '' shell ip route | grep wlan0 | awk '' @
       [CHR 0x27] @ ''{print $9}'' @ [CHR 0x27]"

definition addr_cmd :: "string \<Rightarrow> string" where
  "addr_cmd deviceId =
     ''adb -s '' @ deviceId @ '' shell ip addr show wlan0 | grep '' @
       [CHR 0x22] @ ''inet '' @ [CHR 0x22] @ '' | cut -d'' @ [CHR 0x27] @ '' '' @ [CHR 0x27] @
       '' -f6 | cut -d/ -f1''"

definition modelOrUnknown :: "DeviceInfo \<Rightarrow> string" where
  "modelOrUnknown device =
     (case di_model device of None \<Rightarrow> ''Unknown'' | Some m \<Rightarrow> if m = [] then ''Unknown'' else m)"

definition caught :: "state \<Rightarrow> bool \<times> state" where
  "caught s = (False, emit (ConsoleError ''Error enabling wireless debugging:'') s)"

text \<open>
  The two branches of the source differ in their first line and in the command that asks
  for the Wi-Fi address; what follows the command is the same text in both.
\<close>

definition switchToTcpip ::
  "env \<Rightarrow> string \<Rightarrow> DeviceInfo \<Rightarrow> string \<Rightarrow> state \<Rightarrow> bool \<times> state" where
  "switchToTcpip e deviceId device cmd s =
     (case execPromise e cmd s of
        (Inl _, s1) \<Rightarrow> caught s1
      | (Inr wifiIp, s1) \<Rightarrow>
          (let ip = trim wifiIp in
           if ip = [] then
             (False, emit (ConsoleError ''Failed to get device IP address. Make sure Wi-Fi is enabled.'') s1)
           else
             (case execPromise e (''adb -s '' @ deviceId @ '' tcpip 5555'') s1 of
                (Inl _, s2) \<Rightarrow> caught s2
              | (Inr _, s2) \<Rightarrow>
                  (let s3 = emit (ConsoleLog (''Wireless debugging enabled. Device IP: '' @ ip)) s2;
                       s4 = emit (ConsoleLog (''Wait a few seconds and then connect with: adb connect '' @
                                              ip @ '':5555'')) s3;
                       s5 = s4\<lparr>config := \<lparr>knownDevices = Some (knownList (config s4) @
                               [\<lparr>kd_id = deviceId, kd_ip = ip @ '':5555'',
                                 kd_model = modelOrUnknown device,
                                 kd_lastConnected = now_iso e (calls s4)\<rparr>])\<rparr>\<rparr>
                   in case saveConfig e s5 of
                        (False, s6) \<Rightarrow> caught s6
                      | (True, s6) \<Rightarrow> (True, s6)))))"

definition enableWirelessDebugging :: "env \<Rightarrow> string \<Rightarrow> state \<Rightarrow> bool \<times> state" where
  "enableWirelessDebugging e deviceId s =
     (case getConnectedDevices e s of
        (devices, s1) \<Rightarrow>
          (case find (\<lambda>d. di_id d = deviceId) devices of
             None \<Rightarrow> (False, emit (ConsoleError (''Device '' @ deviceId @ '' not found'')) s1)
           | Some device \<Rightarrow>
               if di_wireless device = Some True then
                 (True, emit (ConsoleLog (''Device '' @ deviceId @ '' is already connected wirelessly'')) s1)
               else
                 (case execPromise e (getprop_cmd deviceId ''ro.build.version.release'') s1 of
                    (Inl _, s2) \<Rightarrow> caught s2
                  | (Inr version, s2) \<Rightarrow>
                      if isAndroid11Plus version then
                        switchToTcpip e deviceId device (route_cmd deviceId)
                          (emit (ConsoleLog ''Using Android 11+ wireless debugging...'') s2)
                      else
                        switchToTcpip e deviceId device (addr_cmd deviceId)
                          (emit (ConsoleLog ''Using legacy wireless debugging for Android 10 and below...'') s2))))"

section \<open>The discover command\<close>

definition execSync :: "env \<Rightarrow> string \<Rightarrow> state \<Rightarrow> (exec_error + string) \<times> state" where
  "execSync e cmd s = (exec_result e (calls s) cmd, s\<lparr>calls := Suc (calls s)\<rparr>)"

definition checkAdbInstalled :: "env \<Rightarrow> state \<Rightarrow> bool \<times> state" where
  "checkAdbInstalled e s =
     (case execSync e ''adb version'' s of
        (Inl _, s1) \<Rightarrow> (False, s1)
      | (Inr _, s1) \<Rightarrow> (True, s1))"

definition adb_missing :: string where
  "adb_missing =
     ''ADB is not installed or not in PATH. Please install Android SDK and add ADB to your PATH.''"

text \<open>
  The action of \<open>discover\<close>.  It returns nothing; the model returns the sweep it ran, if
  any, so that the probes launched can be named.
\<close>

definition discover_action :: "env \<Rightarrow> state \<Rightarrow> sweep option \<times> state" where
  "discover_action e s =
     (case checkAdbInstalled e s of
        (False, s1) \<Rightarrow> (None, emit (ConsoleError adb_missing) s1)
      | (True, s1) \<Rightarrow>
          (case discoverDevices e s1 of
             ((devices, w), s2) \<Rightarrow>
               if length devices = 0 then
                 (Some w, emit (ConsoleLog (''No devices discoverable on the network. '' @
                     ''Make sure they have wireless debugging enabled.'')) s2)
               else
                 (Some w, emit (TableOut [''IP Address'', ''Status'']
                     (map (\<lambda>device. [dd_ip device,
                                       if dd_status device = ''connected'' then ''Connected''
                                       else ''Discoverable'']) devices)) s2)))"

subsection \<open>Notions used to state properties of the sweep\<close>

text \<open>
  The address tried at iteration \<open>i\<close>, the state in which the sweep reaches that
  iteration (each earlier iteration has queried the listing once), and the device listing
  the sweep obtains there.
\<close>

definition candidate :: "env \<Rightarrow> nat \<Rightarrow> string" where
  "candidate e i = ipBase_of (getLocalIpAddress e) @ show_nat i"

definition state_at :: "env \<Rightarrow> state \<Rightarrow> nat \<Rightarrow> state" where
  "state_at e s i =
     ((\<lambda>t. snd (getConnectedDevices e t)) ^^ (i - 1))
       (emit (SpinnerStart ''Discovering devices on network...'') s)"

definition listing_at :: "env \<Rightarrow> state \<Rightarrow> nat \<Rightarrow> DeviceInfo list" where
  "listing_at e s i = fst (getConnectedDevices e (state_at e s i))"

definition connected_at :: "env \<Rightarrow> state \<Rightarrow> nat \<Rightarrow> bool" where
  "connected_at e s i = isAlreadyConnected (listing_at e s i) (candidate e i)"

definition probe_succeeds :: "env \<Rightarrow> string \<Rightarrow> bool" where
  "probe_succeeds e ip = (case probe_result e (connect_cmd ip) of Inr _ \<Rightarrow> True | Inl _ \<Rightarrow> False)"

definition digit_val :: "char \<Rightarrow> nat" where
  "digit_val c = of_char c - 48"

definition read_nat :: "string \<Rightarrow> nat" where
  "read_nat s = foldl (\<lambda>a c. 10 * a + digit_val c) 0 s"

text \<open>The invariant of the loop, after the iterations below \<open>n\<close>.\<close>

definition sweep_inv ::
  "env \<Rightarrow> string \<Rightarrow> (nat \<Rightarrow> string) \<Rightarrow> (nat \<Rightarrow> bool) \<Rightarrow> nat \<Rightarrow> sweep \<Rightarrow> bool" where
  "sweep_inv e L cand conn n w \<longleftrightarrow>
     launched w = map (\<lambda>i. connect_cmd (cand i))
                    (filter (\<lambda>i. \<not> conn i \<and> cand i \<noteq> L) [1..<n]) \<and>
     distinct (map dd_ip (discoveredDevices w) @ pending w) \<and>
     set (pending w) \<subseteq> cand ` {i. 1 \<le> i \<and> i < n \<and> \<not> conn i \<and> cand i \<noteq> L} \<and>
     set (discoveredDevices w) =
       (\<lambda>i. \<lparr>dd_ip = cand i, dd_status = ''connected''\<rparr>) ` {i. 1 \<le> i \<and> i < n \<and> conn i} \<union>
       (\<lambda>i. \<lparr>dd_ip = cand i, dd_status = ''discoverable''\<rparr>) `
          {i. 1 \<le> i \<and> i < n \<and> \<not> conn i \<and> cand i \<noteq> L \<and> cand i \<notin> set (pending w) \<and>
              probe_succeeds e (cand i)}"

definition sweep_start :: "state \<Rightarrow> sweep \<times> state" where
  "sweep_start s = (\<lparr>discoveredDevices = [], pending = [], launched = []\<rparr>,
                    emit (SpinnerStart ''Discovering devices on network...'') s)"

section \<open>A sample network\<close>

text \<open>
  The host is \<open>192.168.1.5\<close>; the bridge lists two wireless devices, at \<open>.12\<close> and at
  \<open>.50\<close>; of the addresses probed, only \<open>.7\<close> answers.
\<close>

definition lan_listing :: string where
  "lan_listing = ''List of devices attached'' @ [CHR 0x0A] @
     ''192.168.1.12:5555'' @ [CHR 0x09] @ ''device'' @ [CHR 0x0A] @
     ''192.168.1.50:5555'' @ [CHR 0x09] @ ''offline'' @ [CHR 0x0A] @ [CHR 0x0A]"

definition lan_env :: env where
  "lan_env =
     \<lparr>exec_result = (\<lambda>n cmd. if cmd = ''adb devices'' then Inr lan_listing
                              else if cmd = ''adb version'' then Inr ''Android Debug Bridge version 1.0.41''
                              else if cmd = getprop_cmd ''192.168.1.12:5555'' ''ro.product.model''
                                then Inr (''Pixel 7'' @ [CHR 0x0A])
                              else if cmd = getprop_cmd ''192.168.1.12:5555'' ''ro.build.version.release''
                                then Inr (''14'' @ [CHR 0x0A])
                              else if cmd = getprop_cmd ''192.168.1.12:5555'' ''ro.product.manufacturer''
                                then Inr (''Google'' @ [CHR 0x0A])
                              else Inl NonZeroExit),
      probe_result = (\<lambda>cmd. if cmd = ''adb connect 192.168.1.7:5555''
                             then Inr ''connected to 192.168.1.7:5555'' else Inl TimedOut),
      ready = (\<lambda>i. if i = 9 then [''192.168.1.7''] else []),
      networkInterfaces =
        [(''lo'', Some [\<lparr>family = ''IPv4'', internal = True, address = ''127.0.0.1''\<rparr>]),
         (''wlan0'', Some [\<lparr>family = ''IPv6'', internal = False, address = ''fe80::1''\<rparr>,
                          \<lparr>family = ''IPv4'', internal = False, address = ''192.168.1.5''\<rparr>])],
      now_iso = (\<lambda>n. ''2024-05-01T10:00:00.000Z''),
      write_failure = (\<lambda>n. None)\<rparr>"

definition fresh_state :: state where
  "fresh_state = \<lparr>calls = 0, console = [], config = \<lparr>knownDevices = None\<rparr>, configFile = Absent\<rparr>"

text \<open>The same network when the bridge daemon does not answer: only \<open>adb version\<close> works.\<close>

definition daemon_down_env :: env where
  "daemon_down_env =
     lan_env\<lparr>exec_result := (\<lambda>n cmd. if cmd = ''adb version''
                                   then Inr ''Android Debug Bridge version 1.0.41''
                                   else Inl NonZeroExit)\<rparr>"

text \<open>And a host without the bridge executable.\<close>

definition no_adb_env :: env where
  "no_adb_env = lan_env\<lparr>exec_result := (\<lambda>n cmd. Inl SpawnError)\<rparr>"

text \<open>A phone on USB, running platform version 11, with Wi-Fi switched off.\<close>

definition usb_env :: env where
  "usb_env =
     lan_env\<lparr>exec_result := (\<lambda>n cmd.
        if cmd = ''adb devices'' then
          Inr (''List of devices attached'' @ [CHR 0x0A] @
               ''R58M45ABCDE'' @ [CHR 0x09] @ ''device'' @ [CHR 0x0A] @ [CHR 0x0A])
        else if cmd = getprop_cmd ''R58M45ABCDE'' ''ro.product.model'' then Inr (''SM-G991B'' @ [CHR 0x0A])
        else if cmd = getprop_cmd ''R58M45ABCDE'' ''ro.build.version.release'' then Inr (''11'' @ [CHR 0x0A])
        else if cmd = getprop_cmd ''R58M45ABCDE'' ''ro.product.manufacturer'' then Inr (''samsung'' @ [CHR 0x0A])
        else if cmd = route_cmd ''R58M45ABCDE'' then Inr [CHR 0x0A]
        else Inl NonZeroExit)\<rparr>"

text \<open>Two known devices; the model name of the second needs escapes.\<close>

definition sample_devices :: "KnownDevice list" where
  "sample_devices =
     [\<lparr>kd_id = ''R58M45ABCDE'', kd_ip = ''192.168.1.12:5555'', kd_model = ''SM-G991B'',
       kd_lastConnected = ''2024-05-01T10:00:00.000Z''\<rparr>,
      \<lparr>kd_id = ''emulator-5554'', kd_ip = ''192.168.1.50:5555'',
       kd_model = ''Tab '' @ [CHR 0x22, CHR 0x5C, CHR 0x09, CHR 0x01] @ '' 10'',
       kd_lastConnected = ''2024-05-02T08:30:00.000Z''\<rparr>]"

text \<open>A preference file cut off in the middle of a write.\<close>

definition truncated_file_state :: state where
  "truncated_file_state =
     fresh_state\<lparr>configFile := Content (''{'' @ [CHR 0x0A] @ ''  '' @ quote ''knownDevices'' @ '': ['')\<rparr>"

text \<open>
  A host on a subnet wider than /24 whose address ends in \<open>.255\<close>, with a bridge that
  lists a device at that very address.
\<close>

definition wide_env :: env where
  "wide_env =
     lan_env\<lparr>exec_result := (\<lambda>n cmd. if cmd = ''adb devices''
         then Inr (''List of devices attached'' @ [CHR 0x0A] @
                   ''192.168.1.255:5555'' @ [CHR 0x09] @ ''offline'' @ [CHR 0x0A] @ [CHR 0x0A])
         else Inl NonZeroExit),
       networkInterfaces :=
         [(''wlan0'', Some [\<lparr>family = ''IPv4'', internal = False, address = ''192.168.1.255''\<rparr>])]\<rparr>"

text \<open>A bridge that prints the same device twice.\<close>

definition dup_env :: env where
  "dup_env =
     lan_env\<lparr>exec_result := (\<lambda>n cmd. if cmd = ''adb devices''
         then Inr (''List of devices attached'' @ [CHR 0x0A] @
                   ''emulator-5554'' @ [CHR 0x09] @ ''offline'' @ [CHR 0x0A] @
                   ''emulator-5554'' @ [CHR 0x09] @ ''offline'' @ [CHR 0x0A])
         else Inl NonZeroExit)\<rparr>"


section \<open>Proofs\<close>

subsection \<open>Strings\<close>

lemma startsWith_prefix: "startsWith s p \<longleftrightarrow> prefix p s"
  unfolding startsWith_def prefix_def by (metis append_take_drop_id append_eq_conv_conj)

lemma includes_str_sublist: "includes_str s sub \<longleftrightarrow> sublist sub s"
  by (induction s) (auto simp: startsWith_prefix sublist_Cons_right)

lemma digit_val_digit_char: "d < 10 \<Longrightarrow> digit_val (digit_char d) = d"
  by (simp add: digit_val_def digit_char_def)

lemma read_nat_show_nat: "read_nat (show_nat n) = n"
proof (induction n rule: show_nat.induct)
  case (1 n)
  show ?case
  proof (cases "n < 10")
    case True
    then show ?thesis
      by (simp add: show_nat.simps [of n] read_nat_def digit_val_digit_char)
  next
    case False
    with 1 have ih: "read_nat (show_nat (n div 10)) = n div 10" by simp
    have "read_nat (show_nat n) =
          10 * read_nat (show_nat (n div 10)) + digit_val (digit_char (n mod 10))"
      using False by (simp add: show_nat.simps [of n] read_nat_def)
    also have "\<dots> = 10 * (n div 10) + n mod 10"
      by (simp add: ih digit_val_digit_char)
    finally show ?thesis by simp
  qed
qed

lemma show_nat_inj: "show_nat a = show_nat b \<Longrightarrow> a = b"
  by (metis read_nat_show_nat)

lemma candidate_inj: "candidate e i = candidate e j \<Longrightarrow> i = j"
  by (simp add: candidate_def show_nat_inj)

lemma connect_cmd_inj: "connect_cmd a = connect_cmd b \<Longrightarrow> a = b"
  by (simp add: connect_cmd_def)

subsection \<open>The loop as a fold\<close>

lemma sweep_loop_fold:
  "i \<le> 255 \<Longrightarrow> sweep_loop e L B i x = fold (sweep_body e L B) [i..<255] x"
proof (induction e L B i x rule: sweep_loop.induct)
  case (1 e L B i x)
  show ?case
  proof (cases "i < 255")
    case True
    then have "[i..<255] = i # [Suc i..<255]" by (simp add: upt_conv_Cons)
    with 1 True show ?thesis by (simp add: sweep_loop.simps [of e L B i x])
  next
    case False
    with 1 have "i = 255" by simp
    then show ?thesis by (simp add: sweep_loop.simps [of e L B 255 x])
  qed
qed

subsection \<open>The invariant is kept\<close>

lemma settle_pending:
  "distinct (pending w) \<Longrightarrow> set (pending (settle e ip w)) = set (pending w) - {ip}"
  by (auto simp: settle_def Let_def split: sum.splits)

lemma settle_inv:
  assumes cinj: "inj cand"
    and inv: "sweep_inv e L cand conn n w"
  shows "sweep_inv e L cand conn n (settle e ip w)"
proof (cases "ip \<in> set (pending w)")
  case False
  then show ?thesis using inv by (simp add: settle_def)
next
  case True
  note ceq = inj_eq [OF cinj]
  from inv have la: "launched w = map (\<lambda>i. connect_cmd (cand i))
                    (filter (\<lambda>i. \<not> conn i \<and> cand i \<noteq> L) [1..<n])"
    and di: "distinct (map dd_ip (discoveredDevices w) @ pending w)"
    and pe: "set (pending w) \<subseteq> cand ` {i. 1 \<le> i \<and> i < n \<and> \<not> conn i \<and> cand i \<noteq> L}"
    and ds: "set (discoveredDevices w) =
       (\<lambda>i. \<lparr>dd_ip = cand i, dd_status = ''connected''\<rparr>) ` {i. 1 \<le> i \<and> i < n \<and> conn i} \<union>
       (\<lambda>i. \<lparr>dd_ip = cand i, dd_status = ''discoverable''\<rparr>) `
          {i. 1 \<le> i \<and> i < n \<and> \<not> conn i \<and> cand i \<noteq> L \<and> cand i \<notin> set (pending w) \<and>
              probe_succeeds e (cand i)}"
    unfolding sweep_inv_def by blast+
  from True pe obtain j where j: "ip = cand j" "1 \<le> j" "j < n" "\<not> conn j" "cand j \<noteq> L"
    by auto
  from di have dp: "distinct (pending w)" by simp
  have pset: "set (remove1 ip (pending w)) = set (pending w) - {ip}"
    using dp by simp
  from di True have fresh: "ip \<notin> dd_ip ` set (discoveredDevices w)" by auto
  show ?thesis
  proof (cases "probe_succeeds e ip")
    case False
    then have eq: "settle e ip w = w\<lparr>pending := remove1 ip (pending w)\<rparr>"
      using True by (simp add: settle_def probe_succeeds_def split: sum.splits)
    have d': "distinct (map dd_ip (discoveredDevices w) @ remove1 ip (pending w))"
      using di by (auto dest: notin_set_remove1)
    have s': "set (discoveredDevices w) =
       (\<lambda>i. \<lparr>dd_ip = cand i, dd_status = ''connected''\<rparr>) ` {i. 1 \<le> i \<and> i < n \<and> conn i} \<union>
       (\<lambda>i. \<lparr>dd_ip = cand i, dd_status = ''discoverable''\<rparr>) `
          {i. 1 \<le> i \<and> i < n \<and> \<not> conn i \<and> cand i \<noteq> L \<and> cand i \<notin> set (remove1 ip (pending w)) \<and>
              probe_succeeds e (cand i)}"
      unfolding ds pset using False j by auto
    show ?thesis unfolding eq sweep_inv_def
      using la d' pe s' pset by auto
  next
    case ok: True
    then have eq: "settle e ip w =
        w\<lparr>pending := remove1 ip (pending w),
          discoveredDevices := discoveredDevices w @ [\<lparr>dd_ip = ip, dd_status = ''discoverable''\<rparr>]\<rparr>"
      using True by (simp add: settle_def probe_succeeds_def split: sum.splits)
    have d': "distinct (map dd_ip (discoveredDevices w @ [\<lparr>dd_ip = ip, dd_status = ''discoverable''\<rparr>])
                 @ remove1 ip (pending w))"
      using di fresh dp by (auto dest: notin_set_remove1)
    have s': "set (discoveredDevices w @ [\<lparr>dd_ip = ip, dd_status = ''discoverable''\<rparr>]) =
       (\<lambda>i. \<lparr>dd_ip = cand i, dd_status = ''connected''\<rparr>) ` {i. 1 \<le> i \<and> i < n \<and> conn i} \<union>
       (\<lambda>i. \<lparr>dd_ip = cand i, dd_status = ''discoverable''\<rparr>) `
          {i. 1 \<le> i \<and> i < n \<and> \<not> conn i \<and> cand i \<noteq> L \<and> cand i \<notin> set (remove1 ip (pending w)) \<and>
              probe_succeeds e (cand i)}"
      unfolding pset set_append ds using ok j by (auto simp: ceq)
    show ?thesis unfolding eq sweep_inv_def
      using la d' pe s' pset by auto
  qed
qed


lemma run_ready_inv:
  assumes cinj: "inj cand"
  shows "sweep_inv e L cand conn n w \<Longrightarrow> sweep_inv e L cand conn n (run_ready e ips w)"
  unfolding run_ready_def
  by (induction ips arbitrary: w) (simp_all add: settle_inv [OF cinj])

lemma run_ready_pending:
  "distinct (pending w) \<Longrightarrow>
     distinct (pending (run_ready e ips w)) \<and>
     set (pending (run_ready e ips w)) = set (pending w) - set ips"
  unfolding run_ready_def
proof (induction ips arbitrary: w)
  case Nil
  then show ?case by simp
next
  case (Cons ip ips)
  have d: "distinct (pending (settle e ip w))"
    using Cons.prems by (auto simp: settle_def Let_def split: sum.splits)
  from Cons.IH [OF d] settle_pending [OF Cons.prems, of e ip]
  show ?case by auto
qed

lemma sweep_body_snd: "snd (sweep_body e L B i (w, s)) = snd (getConnectedDevices e s)"
  by (simp add: sweep_body_def Let_def split: prod.splits)

lemma sweep_body_inv:
  assumes cinj: "inj cand"
    and n: "1 \<le> n"
    and inv: "sweep_inv e L cand conn n w"
    and cn: "cand n = B @ show_nat n"
    and conn: "conn n = isAlreadyConnected (fst (getConnectedDevices e s)) (B @ show_nat n)"
  shows "sweep_inv e L cand conn (Suc n) (fst (sweep_body e L B n (w, s)))"
proof -
  note ceq = inj_eq [OF cinj]
  define w1 where "w1 = run_ready e (ready e n) w"
  obtain cds s1 where g: "getConnectedDevices e s = (cds, s1)"
    by (cases "getConnectedDevices e s")
  have c: "conn n = isAlreadyConnected cds (cand n)"
    using conn g cn by simp
  have body: "fst (sweep_body e L B n (w, s)) =
     (if conn n then
        w1\<lparr>discoveredDevices := discoveredDevices w1 @ [\<lparr>dd_ip = cand n, dd_status = ''connected''\<rparr>]\<rparr>
      else if cand n = L then w1
      else w1\<lparr>pending := pending w1 @ [cand n], launched := launched w1 @ [connect_cmd (cand n)]\<rparr>)"
    unfolding c by (simp add: sweep_body_def Let_def w1_def g cn)
  have inv1: "sweep_inv e L cand conn n w1"
    unfolding w1_def using cinj inv by (rule run_ready_inv)
  then have la: "launched w1 = map (\<lambda>i. connect_cmd (cand i))
                    (filter (\<lambda>i. \<not> conn i \<and> cand i \<noteq> L) [1..<n])"
    and di: "distinct (map dd_ip (discoveredDevices w1) @ pending w1)"
    and pe: "set (pending w1) \<subseteq> cand ` {i. 1 \<le> i \<and> i < n \<and> \<not> conn i \<and> cand i \<noteq> L}"
    and ds: "set (discoveredDevices w1) =
       (\<lambda>i. \<lparr>dd_ip = cand i, dd_status = ''connected''\<rparr>) ` {i. 1 \<le> i \<and> i < n \<and> conn i} \<union>
       (\<lambda>i. \<lparr>dd_ip = cand i, dd_status = ''discoverable''\<rparr>) `
          {i. 1 \<le> i \<and> i < n \<and> \<not> conn i \<and> cand i \<noteq> L \<and> cand i \<notin> set (pending w1) \<and>
              probe_succeeds e (cand i)}"
    unfolding sweep_inv_def by blast+
  have upt: "[1..<Suc n] = [1..<n] @ [n]" using n by simp
  have fresh_p: "cand n \<notin> set (pending w1)"
    using pe by (auto simp: ceq)
  have fresh_d: "cand n \<notin> dd_ip ` set (discoveredDevices w1)"
    unfolding ds by (auto simp: ceq)
  have lt: "\<And>i. i < Suc n \<longleftrightarrow> i < n \<or> i = n" by auto
  show ?thesis
  proof (cases "conn n")
    case True
    then have eq: "fst (sweep_body e L B n (w, s)) =
        w1\<lparr>discoveredDevices := discoveredDevices w1 @ [\<lparr>dd_ip = cand n, dd_status = ''connected''\<rparr>]\<rparr>"
      by (simp add: body)
    have l': "launched w1 = map (\<lambda>i. connect_cmd (cand i))
                    (filter (\<lambda>i. \<not> conn i \<and> cand i \<noteq> L) [1..<Suc n])"
      unfolding upt using la True by simp
    have d': "distinct (map dd_ip (discoveredDevices w1 @ [\<lparr>dd_ip = cand n, dd_status = ''connected''\<rparr>])
                 @ pending w1)"
      using di fresh_p fresh_d by auto
    have p': "set (pending w1) \<subseteq> cand ` {i. 1 \<le> i \<and> i < Suc n \<and> \<not> conn i \<and> cand i \<noteq> L}"
      using pe by auto
    have s': "set (discoveredDevices w1 @ [\<lparr>dd_ip = cand n, dd_status = ''connected''\<rparr>]) =
       (\<lambda>i. \<lparr>dd_ip = cand i, dd_status = ''connected''\<rparr>) ` {i. 1 \<le> i \<and> i < Suc n \<and> conn i} \<union>
       (\<lambda>i. \<lparr>dd_ip = cand i, dd_status = ''discoverable''\<rparr>) `
          {i. 1 \<le> i \<and> i < Suc n \<and> \<not> conn i \<and> cand i \<noteq> L \<and> cand i \<notin> set (pending w1) \<and>
              probe_succeeds e (cand i)}"
      unfolding set_append ds lt using True n by auto
    show ?thesis unfolding eq sweep_inv_def using l' d' p' s' by simp
  next
    case nc: False
    show ?thesis
    proof (cases "cand n = L")
      case True
      then have eq: "fst (sweep_body e L B n (w, s)) = w1"
        using nc by (simp add: body)
      have l': "launched w1 = map (\<lambda>i. connect_cmd (cand i))
                    (filter (\<lambda>i. \<not> conn i \<and> cand i \<noteq> L) [1..<Suc n])"
        unfolding upt using la True by simp
      have p': "set (pending w1) \<subseteq> cand ` {i. 1 \<le> i \<and> i < Suc n \<and> \<not> conn i \<and> cand i \<noteq> L}"
        using pe by auto
      have s': "set (discoveredDevices w1) =
       (\<lambda>i. \<lparr>dd_ip = cand i, dd_status = ''connected''\<rparr>) ` {i. 1 \<le> i \<and> i < Suc n \<and> conn i} \<union>
       (\<lambda>i. \<lparr>dd_ip = cand i, dd_status = ''discoverable''\<rparr>) `
          {i. 1 \<le> i \<and> i < Suc n \<and> \<not> conn i \<and> cand i \<noteq> L \<and> cand i \<notin> set (pending w1) \<and>
              probe_succeeds e (cand i)}"
        unfolding ds lt using True nc by auto
      show ?thesis unfolding eq sweep_inv_def using l' di p' s' by simp
    next
      case False
      then have eq: "fst (sweep_body e L B n (w, s)) =
          w1\<lparr>pending := pending w1 @ [cand n], launched := launched w1 @ [connect_cmd (cand n)]\<rparr>"
        using nc by (simp add: body)
      have l': "launched w1 @ [connect_cmd (cand n)] = map (\<lambda>i. connect_cmd (cand i))
                    (filter (\<lambda>i. \<not> conn i \<and> cand i \<noteq> L) [1..<Suc n])"
        unfolding upt using la False nc by simp
      have d': "distinct (map dd_ip (discoveredDevices w1) @ pending w1 @ [cand n])"
        using di fresh_p fresh_d by auto
      have p': "set (pending w1 @ [cand n]) \<subseteq> cand ` {i. 1 \<le> i \<and> i < Suc n \<and> \<not> conn i \<and> cand i \<noteq> L}"
        using pe False nc n by auto
      have s': "set (discoveredDevices w1) =
       (\<lambda>i. \<lparr>dd_ip = cand i, dd_status = ''connected''\<rparr>) ` {i. 1 \<le> i \<and> i < Suc n \<and> conn i} \<union>
       (\<lambda>i. \<lparr>dd_ip = cand i, dd_status = ''discoverable''\<rparr>) `
          {i. 1 \<le> i \<and> i < Suc n \<and> \<not> conn i \<and> cand i \<noteq> L \<and> cand i \<notin> set (pending w1 @ [cand n]) \<and>
              probe_succeeds e (cand i)}"
        unfolding ds lt using False nc by (auto simp: ceq)
      show ?thesis unfolding eq sweep_inv_def using l' d' p' s' by simp
    qed
  qed
qed


lemma sweep_fold_inv:
  "sweep_inv e (getLocalIpAddress e) (candidate e) (connected_at e s) (Suc k)
     (fst (fold (sweep_body e (getLocalIpAddress e) (ipBase_of (getLocalIpAddress e))) [1..<Suc k]
        (sweep_start s))) \<and>
   snd (fold (sweep_body e (getLocalIpAddress e) (ipBase_of (getLocalIpAddress e))) [1..<Suc k]
        (sweep_start s)) = state_at e s (Suc k)"
proof (induction k)
  case 0
  show ?case by (simp add: sweep_inv_def sweep_start_def state_at_def)
next
  case (Suc k)
  let ?L = "getLocalIpAddress e"
  let ?B = "ipBase_of ?L"
  let ?x = "fold (sweep_body e ?L ?B) [1..<Suc k] (sweep_start s)"
  obtain w st where x: "?x = (w, st)" by (cases ?x)
  from Suc x have inv: "sweep_inv e ?L (candidate e) (connected_at e s) (Suc k) w"
    and st: "st = state_at e s (Suc k)" by (simp_all del: upt_Suc)
  have upt: "[1..<Suc (Suc k)] = [1..<Suc k] @ [Suc k]" by simp
  have step: "fold (sweep_body e ?L ?B) [1..<Suc (Suc k)] (sweep_start s) =
      sweep_body e ?L ?B (Suc k) (w, st)"
    unfolding upt fold_append using x by (simp del: upt_Suc)
  have cinj: "inj (candidate e)"
    by (rule injI) (rule candidate_inj)
  have "sweep_inv e ?L (candidate e) (connected_at e s) (Suc (Suc k))
          (fst (sweep_body e ?L ?B (Suc k) (w, st)))"
  proof (rule sweep_body_inv [OF cinj _ inv])
    show "1 \<le> Suc k" by simp
    show "candidate e (Suc k) = ?B @ show_nat (Suc k)" by (simp add: candidate_def)
    show "connected_at e s (Suc k) =
      isAlreadyConnected (fst (getConnectedDevices e st)) (?B @ show_nat (Suc k))"
      by (simp add: connected_at_def listing_at_def st candidate_def)
  qed
  moreover have "snd (sweep_body e ?L ?B (Suc k) (w, st)) = state_at e s (Suc (Suc k))"
    by (simp add: sweep_body_snd st state_at_def)
  ultimately show ?case unfolding step by simp
qed

text \<open>In particular \<open>state_at\<close> is the state in which the loop starts an iteration.\<close>

lemma sweep_iteration_state:
  "snd (fold (sweep_body e (getLocalIpAddress e) (ipBase_of (getLocalIpAddress e))) [1..<Suc k]
        (sweep_start s)) = state_at e s (Suc k)"
  using sweep_fold_inv [of e s k] by (rule conjunct2)

lemma allSettled_inv:
  assumes cinj: "inj cand" and inv: "sweep_inv e L cand conn n w"
  shows "sweep_inv e L cand conn n (allSettled e w)" and "pending (allSettled e w) = []"
proof -
  show "sweep_inv e L cand conn n (allSettled e w)"
    unfolding allSettled_def using cinj inv by (rule run_ready_inv)
  from inv have "distinct (pending w)" by (simp add: sweep_inv_def)
  from run_ready_pending [OF this, of e "ready e 255 @ pending w"]
  have "set (pending (allSettled e w)) = {}" by (auto simp: allSettled_def)
  then show "pending (allSettled e w) = []" by simp
qed

lemma discoverDevices_unfold:
  "discoverDevices e s =
     (let w' = allSettled e (fst (fold (sweep_body e (getLocalIpAddress e) (ipBase_of (getLocalIpAddress e)))
                 [1..<255] (sweep_start s)))
      in ((discoveredDevices w', w'),
          emit (SpinnerSucceed ''Device discovery completed'') (state_at e s 255)))"
proof -
  let ?x = "fold (sweep_body e (getLocalIpAddress e) (ipBase_of (getLocalIpAddress e)))
                 [1..<255] (sweep_start s)"
  obtain w st where x: "?x = (w, st)" by (cases ?x)
  have "snd ?x = state_at e s 255"
    using sweep_fold_inv [of e s 254] by simp
  with x have st: "st = state_at e s 255" by simp
  have "sweep_loop e (getLocalIpAddress e) (ipBase_of (getLocalIpAddress e)) 1 (sweep_start s) = (w, st)"
    using x by (simp add: sweep_loop_fold)
  then show ?thesis
    unfolding x by (simp add: discoverDevices_def Let_def sweep_start_def st)
qed

lemma discoverDevices_inv:
  "sweep_inv e (getLocalIpAddress e) (candidate e) (connected_at e s) 255
     (snd (fst (discoverDevices e s)))"
  "pending (snd (fst (discoverDevices e s))) = []"
  "fst (fst (discoverDevices e s)) = discoveredDevices (snd (fst (discoverDevices e s)))"
proof -
  have cinj: "inj (candidate e)"
    by (rule injI) (rule candidate_inj)
  have inv: "sweep_inv e (getLocalIpAddress e) (candidate e) (connected_at e s) 255
     (fst (fold (sweep_body e (getLocalIpAddress e) (ipBase_of (getLocalIpAddress e)))
                 [1..<255] (sweep_start s)))"
    using sweep_fold_inv [of e s 254] by simp
  show "sweep_inv e (getLocalIpAddress e) (candidate e) (connected_at e s) 255
     (snd (fst (discoverDevices e s)))"
    unfolding discoverDevices_unfold Let_def using allSettled_inv(1) [OF cinj inv] by simp
  show "pending (snd (fst (discoverDevices e s))) = []"
    unfolding discoverDevices_unfold Let_def using allSettled_inv(2) [OF cinj inv] by simp
  show "fst (fst (discoverDevices e s)) = discoveredDevices (snd (fst (discoverDevices e s)))"
    unfolding discoverDevices_unfold Let_def by simp
qed

subsection \<open>What the sweep returns and what it probes\<close>

lemma sweep_result_set:
  "set (fst (fst (discoverDevices e s))) =
     (\<lambda>i. \<lparr>dd_ip = candidate e i, dd_status = ''connected''\<rparr>) `
        {i. 1 \<le> i \<and> i < 255 \<and> connected_at e s i} \<union>
     (\<lambda>i. \<lparr>dd_ip = candidate e i, dd_status = ''discoverable''\<rparr>) `
        {i. 1 \<le> i \<and> i < 255 \<and> \<not> connected_at e s i \<and> candidate e i \<noteq> getLocalIpAddress e \<and>
            probe_succeeds e (candidate e i)}"
  using discoverDevices_inv(1) [of e s]
  unfolding discoverDevices_inv(3) sweep_inv_def discoverDevices_inv(2) by simp

lemma sweep_launched:
  "launched (snd (fst (discoverDevices e s))) =
     map (\<lambda>i. connect_cmd (candidate e i))
       (filter (\<lambda>i. \<not> connected_at e s i \<and> candidate e i \<noteq> getLocalIpAddress e) [1..<255])"
  using discoverDevices_inv(1) [of e s] unfolding sweep_inv_def by blast

lemma sweep_distinct: "distinct (map dd_ip (fst (fst (discoverDevices e s))))"
  using discoverDevices_inv(1) [of e s]
  unfolding discoverDevices_inv(3) sweep_inv_def by simp

lemma sweep_launched_iff:
  "connect_cmd ip \<in> set (launched (snd (fst (discoverDevices e s)))) \<longleftrightarrow>
     (\<exists>i. 1 \<le> i \<and> i < 255 \<and> ip = candidate e i \<and> \<not> connected_at e s i \<and>
          ip \<noteq> getLocalIpAddress e)"
  unfolding sweep_launched by (auto dest: connect_cmd_inj)

lemma connected_at_iff:
  "connected_at e s i \<longleftrightarrow> (\<exists>d \<in> set (listing_at e s i). sublist (candidate e i) (di_id d))"
  by (auto simp: connected_at_def isAlreadyConnected_def list_ex_iff includes_str_sublist
        startsWith_prefix)

subsection \<open>The listing depends on the awaited calls only; what it prints\<close>

lemma execPromise_cong:
  assumes eq: "exec_result e' = exec_result e"
  shows "execPromise e' cmd s = execPromise e cmd s"
  by (simp add: execPromise_def eq)

lemma queryProps_cong:
  assumes eq: "exec_result e' = exec_result e"
  shows "queryProps e' d s = queryProps e d s"
  by (simp add: queryProps_def execPromise_cong [OF eq] Let_def split: prod.splits sum.splits)

lemma parseLines_cong:
  assumes eq: "exec_result e' = exec_result e"
  shows "parseLines e' ls ds s = parseLines e ls ds s"
  by (induction ls arbitrary: ds s)
     (simp_all add: queryProps_cong [OF eq] Let_def split: option.splits prod.splits)

lemma getConnectedDevices_cong:
  assumes eq: "exec_result e' = exec_result e"
  shows "getConnectedDevices e' s = getConnectedDevices e s"
  by (simp add: getConnectedDevices_def execPromise_cong [OF eq] parseLines_cong [OF eq]
        split: prod.splits sum.splits)

lemma state_at_cong:
  assumes eq: "exec_result e' = exec_result e"
  shows "state_at e' s i = state_at e s i"
  by (simp add: state_at_def getConnectedDevices_cong [OF eq])

lemma console_emit: "console (emit x s) = console s @ [x]"
  by (simp add: emit_def)

lemma queryProps_console: "console (snd (queryProps e d s)) = console s"
  by (simp add: queryProps_def execPromise_def Let_def split: sum.splits)

lemma parseLines_console: "console (snd (parseLines e ls ds s)) = console s"
  by (induction ls arbitrary: ds s)
     (auto simp: queryProps_console Let_def split: option.splits prod.splits
        dest: arg_cong [where f = "\<lambda>x. console (snd x)"])

lemma getConnectedDevices_console:
  "console (snd (getConnectedDevices e s)) =
     (if isl (exec_result e (calls s) ''adb devices'')
      then console s @ [ConsoleError ''Error getting devices:''] else console s)"
  by (auto simp: getConnectedDevices_def execPromise_def parseLines_console console_emit
        split: sum.splits)

lemma getConnectedDevices_failed:
  "isl (exec_result e (calls s) ''adb devices'') \<Longrightarrow> fst (getConnectedDevices e s) = []"
  by (auto simp: getConnectedDevices_def execPromise_def split: sum.splits)

subsection \<open>Identifiers of the parsed listing\<close>

lemma queryProps_id: "di_id (fst (queryProps e d s)) = di_id d"
  by (simp add: queryProps_def Let_def split: prod.splits sum.splits)

lemma parseLines_ids:
  "map di_id (fst (parseLines e ls ds s)) = map di_id ds @ map fst (List.map_filter match_line ls)"
proof (induction ls arbitrary: ds s)
  case Nil
  show ?case by simp
next
  case (Cons l ls)
  show ?case
  proof (cases "match_line l")
    case None
    then show ?thesis by (simp add: Cons.IH)
  next
    case (Some p)
    obtain ident status where p: "p = (ident, status)" by (cases p)
    show ?thesis
    proof (cases "status = ''device''")
      case True
      obtain d' s' where q: "queryProps e \<lparr>di_id = ident, di_status = status, di_model = None,
                             di_androidVersion = None, di_manufacturer = None,
                             di_wireless = None\<rparr> s = (d', s')"
        by (cases "queryProps e \<lparr>di_id = ident, di_status = status, di_model = None,
                             di_androidVersion = None, di_manufacturer = None,
                             di_wireless = None\<rparr> s")
      have "di_id d' = ident"
        using queryProps_id [of e "\<lparr>di_id = ident, di_status = status, di_model = None,
                             di_androidVersion = None, di_manufacturer = None,
                             di_wireless = None\<rparr>" s] q by simp
      then show ?thesis
        using Some p True q by (simp add: Cons.IH)
    next
      case False
      then show ?thesis
        using Some p by (simp add: Cons.IH)
    qed
  qed
qed

subsection \<open>The listing leaves the preference store alone\<close>

lemma queryProps_config:
  "config (snd (queryProps e d s)) = config s \<and> configFile (snd (queryProps e d s)) = configFile s"
  by (simp add: queryProps_def execPromise_def Let_def split: sum.splits)

lemma parseLines_config:
  "config (snd (parseLines e ls ds s)) = config s \<and>
   configFile (snd (parseLines e ls ds s)) = configFile s"
proof (induction ls arbitrary: ds s)
  case Nil
  show ?case by simp
next
  case (Cons l ls)
  show ?case
  proof (cases "match_line l")
    case None
    then show ?thesis by (simp add: Cons.IH)
  next
    case (Some p)
    obtain ident status where p: "p = (ident, status)" by (cases p)
    let ?d = "\<lparr>di_id = ident, di_status = status, di_model = None,
               di_androidVersion = None, di_manufacturer = None, di_wireless = None\<rparr>"
    obtain d' s' where q: "queryProps e ?d s = (d', s')" by (cases "queryProps e ?d s")
    from queryProps_config [of e ?d s] q
    have "config s' = config s \<and> configFile s' = configFile s" by simp
    then show ?thesis using Some p q
      by (cases "status = ''device''") (simp_all add: Cons.IH Let_def)
  qed
qed

lemma getConnectedDevices_config:
  "config (snd (getConnectedDevices e s)) = config s \<and>
   configFile (snd (getConnectedDevices e s)) = configFile s"
  by (simp add: getConnectedDevices_def execPromise_def parseLines_config emit_def
        split: sum.splits)

lemma usb_devices:
  "getConnectedDevices usb_env fresh_state =
     ([\<lparr>di_id = ''R58M45ABCDE'', di_status = ''device'', di_model = Some ''SM-G991B'',
        di_androidVersion = Some ''11'', di_manufacturer = Some ''samsung'',
        di_wireless = Some False\<rparr>], fresh_state\<lparr>calls := 4\<rparr>)"
  by (simp add: getConnectedDevices_def execPromise_def usb_env_def fresh_state_def match_line_def
        is_space_def queryProps_def getprop_cmd_def route_cmd_def trim_def startsWith_def Let_def)

subsection \<open>What the sweep prints\<close>

lemma discoverDevices_console:
  "console (snd (discoverDevices e s)) =
     console (state_at e s 255) @ [SpinnerSucceed ''Device discovery completed'']"
  by (simp add: discoverDevices_unfold Let_def console_emit)

lemma state_at_Suc: "state_at e s (Suc (Suc k)) = snd (getConnectedDevices e (state_at e s (Suc k)))"
  by (simp add: state_at_def)

lemma state_at_console_mono:
  "1 \<le> i \<Longrightarrow> i \<le> j \<Longrightarrow> set (console (state_at e s i)) \<subseteq> set (console (state_at e s j))"
proof (induction j)
  case 0
  then show ?case by simp
next
  case (Suc j)
  show ?case
  proof (cases "i = Suc j")
    case True
    then show ?thesis by simp
  next
    case False
    with Suc.prems have ij: "i \<le> j" and j: "1 \<le> j" by simp_all
    then obtain k where k: "j = Suc k" by (cases j) simp_all
    have "set (console (state_at e s j)) \<subseteq> set (console (state_at e s (Suc j)))"
      unfolding k state_at_Suc getConnectedDevices_console by auto
    with Suc.IH [OF Suc.prems(1) ij] show ?thesis by blast
  qed
qed

lemma listing_failure_logged:
  assumes "1 \<le> i" "i < 255" "isl (exec_result e (calls (state_at e s i)) ''adb devices'')"
  shows "ConsoleError ''Error getting devices:'' \<in> set (console (snd (discoverDevices e s)))"
proof -
  from assms(1) obtain k where k: "i = Suc k" by (cases i) simp_all
  have "ConsoleError ''Error getting devices:'' \<in> set (console (state_at e s (Suc i)))"
    unfolding k state_at_Suc getConnectedDevices_console using assms(3) k by simp
  moreover have "set (console (state_at e s (Suc i))) \<subseteq> set (console (state_at e s 255))"
    using assms(2) by (intro state_at_console_mono) simp_all
  ultimately show ?thesis unfolding discoverDevices_console by auto
qed

lemma state_at_console_only_listing_errors:
  "set (console (state_at e s (Suc k)))
     \<subseteq> set (console s) \<union> {SpinnerStart ''Discovering devices on network...'',
                            ConsoleError ''Error getting devices:''}"
proof (induction k)
  case 0
  show ?case by (auto simp: state_at_def console_emit)
next
  case (Suc k)
  then show ?case unfolding state_at_Suc [of e s k] getConnectedDevices_console by auto
qed

subsection \<open>The recogniser on a few texts\<close>

lemmas json_eval = JSON_parse_def tokenize_def normal_step_def escape_step_def flush_number_def
  flush_word_def valid_number_def valid_fraction_def valid_exponent_def is_json_ws_def
  is_digit_def is_number_char_def is_lower_def hex_val_def Let_def

lemma JSON_parse_accepts:
  "JSON_parse ''{}'' = Some (JObject [])"
  "JSON_parse '' [1, -2.5e+3, true, false, null, [], {}] '' =
     Some (JArray [JNumber ''1'', JNumber ''-2.5e+3'', JBool True, JBool False, JNull,
                   JArray [], JObject []])"
  "JSON_parse ([CHR 0x22, CHR 0x5C] @ ''u0041'' @ [CHR 0x5C] @ ''n'' @ [CHR 0x22]) =
     Some (JString [65, 10])"
  by (simp_all add: json_eval)

lemma JSON_parse_rejects:
  "JSON_parse '''' = None"
  "JSON_parse ''[1,]'' = None"
  "JSON_parse ''{oops'' = None"
  "JSON_parse ''01'' = None"
  "JSON_parse ''1 2'' = None"
  "JSON_parse ''[1 2]'' = None"
  "JSON_parse ''nul'' = None"
  "JSON_parse ([CHR 0x22] @ ''a'') = None"
  "JSON_parse ([CHR 0x22, CHR 0x0A, CHR 0x22]) = None"
  by (simp_all add: json_eval)

subsection \<open>Parsing a stringified configuration\<close>

lemma hex_val_hex_digit: "d < 16 \<Longrightarrow> hex_val (hex_digit d) = Some d"
proof -
  assume "d < 16"
  then have "d = 0 \<or> d = 1 \<or> d = 2 \<or> d = 3 \<or> d = 4 \<or> d = 5 \<or> d = 6 \<or> d = 7 \<or>
             d = 8 \<or> d = 9 \<or> d = 10 \<or> d = 11 \<or> d = 12 \<or> d = 13 \<or> d = 14 \<or> d = 15"
    by arith
  then show ?thesis
    by (elim disjE) (simp_all add: hex_val_def hex_digit_def)
qed

lemma lex_nl: "lex_run (LNormal, ts) (nl k @ rest) = lex_run (LNormal, ts) rest"
proof -
  have "lex_run (LNormal, ts) (replicate k (CHR '' '') @ rest) = lex_run (LNormal, ts) rest"
    by (induction k) (simp_all add: normal_step_def is_json_ws_def)
  then show ?thesis by (simp add: nl_def normal_step_def is_json_ws_def)
qed

lemma lex_quote_char:
  "lex_run (LString pre, ts) (quote_char c @ rest0) = lex_run (LString (pre @ [of_char c]), ts) rest0"
proof -
  let ?n = "of_char c :: nat"
  consider "?n = 8" | "?n = 9" | "?n = 10" | "?n = 12" | "?n = 13" | "?n = 34" | "?n = 92"
    | "?n < 32" "?n \<notin> {8, 9, 10, 12, 13}" | "32 \<le> ?n" "?n \<noteq> 34" "?n \<noteq> 92"
    by fastforce
  then show ?thesis
  proof cases
    case 8
    have d: "?n div 16 < 16" "?n mod 16 < 16" using 8 by simp_all
    have z: "hex_val (CHR ''0'') = Some 0" by (simp add: hex_val_def)
    have "(?n div 16) * 16 + ?n mod 16 = ?n" by simp
    then show ?thesis using 8
      by (simp add: quote_char_def escape_step_def z hex_val_hex_digit [OF d(1)]
            hex_val_hex_digit [OF d(2)] Let_def)
  next
    case 9
    then have "c \<noteq> CHR 0x22" "c \<noteq> CHR 0x5C" by auto
    with 9 show ?thesis by (simp add: quote_char_def Let_def)
  qed (simp_all add: quote_char_def escape_step_def Let_def)
qed

lemma lex_quote_body:
  "lex_run (LString pre, ts) (concat (map quote_char s) @ CHR 0x22 # rest) =
     lex_run (LNormal, ts @ [TString (pre @ code_units s)]) rest"
proof (induction s arbitrary: pre)
  case Nil
  show ?case by (simp add: code_units_def)
next
  case (Cons c s)
  show ?case
    using lex_quote_char [of pre ts c "concat (map quote_char s) @ CHR 0x22 # rest"]
    by (simp add: Cons.IH code_units_def)
qed

lemma lex_quote:
  "lex_run (LNormal, ts) (quote s @ rest) = lex_run (LNormal, ts @ [TString (code_units s)]) rest"
  using lex_quote_body [of "[]" ts s rest]
  by (simp add: quote_def normal_step_def is_json_ws_def)

lemma lex_punct:
  "lex_run (LNormal, ts) (CHR ''{'' # rest) = lex_run (LNormal, ts @ [LBrace]) rest"
  "lex_run (LNormal, ts) (CHR ''}'' # rest) = lex_run (LNormal, ts @ [RBrace]) rest"
  "lex_run (LNormal, ts) (CHR ''['' # rest) = lex_run (LNormal, ts @ [LBracket]) rest"
  "lex_run (LNormal, ts) (CHR '']'' # rest) = lex_run (LNormal, ts @ [RBracket]) rest"
  "lex_run (LNormal, ts) (CHR '':'' # rest) = lex_run (LNormal, ts @ [Colon]) rest"
  "lex_run (LNormal, ts) (CHR '','' # rest) = lex_run (LNormal, ts @ [Comma]) rest"
  "lex_run (LNormal, ts) (CHR '' '' # rest) = lex_run (LNormal, ts) rest"
  by (simp_all add: normal_step_def is_json_ws_def)

lemmas lex_pieces = lex_punct lex_nl lex_quote

lemma lex_device:
  "lex_run (LNormal, ts) (stringify_KnownDevice d @ rest) =
     lex_run (LNormal, ts @ device_tokens d) rest"
  by (simp add: stringify_KnownDevice_def device_tokens_def lex_pieces del: lex_run.simps)

lemma lex_join:
  "lex_run (LNormal, ts) (join_with (CHR '','' # nl 4) (map stringify_KnownDevice ds) @ rest) =
     lex_run (LNormal, ts @ join_tokens ds) rest"
proof (induction ds arbitrary: ts rule: join_tokens.induct)
  case 1
  show ?case by simp
next
  case (2 d)
  show ?case by (simp add: lex_device del: lex_run.simps)
next
  case (3 d d' ds)
  have "lex_run (LNormal, ts)
          (join_with (CHR '','' # nl 4) (map stringify_KnownDevice (d # d' # ds)) @ rest) =
        lex_run (LNormal, (ts @ device_tokens d) @ [Comma])
          (join_with (CHR '','' # nl 4) (map stringify_KnownDevice (d' # ds)) @ rest)"
    by (simp add: lex_device lex_pieces del: lex_run.simps join_with.simps(3))
       (simp add: lex_device lex_pieces del: lex_run.simps)
  also have "\<dots> = lex_run (LNormal, ((ts @ device_tokens d) @ [Comma]) @ join_tokens (d' # ds)) rest"
    by (rule "3.IH")
  finally show ?case by simp
qed

lemma lex_devices:
  "lex_run (LNormal, ts) (stringify_knownDevices ds @ rest) =
     lex_run (LNormal, ts @ [LBracket] @ join_tokens ds @ [RBracket]) rest"
proof (cases "ds = []")
  case True
  then show ?thesis by (simp add: stringify_knownDevices_def lex_pieces del: lex_run.simps)
next
  case False
  then show ?thesis
    by (simp add: stringify_knownDevices_def lex_pieces lex_join del: lex_run.simps)
qed

lemma tokenize_stringify: "tokenize (JSON_stringify cfg) = Some (config_tokens cfg)"
proof (cases "knownDevices cfg")
  case None
  have "lex_run (LNormal, []) ''{}'' = lex_run (LNormal, [LBrace, RBrace]) []"
    by (simp add: lex_pieces del: lex_run.simps)
  then show ?thesis using None
    by (simp add: tokenize_def JSON_stringify_def config_tokens_def del: lex_run.simps) simp
next
  case (Some ds)
  have "lex_run (LNormal, []) (JSON_stringify cfg) = lex_run (LNormal, config_tokens cfg) []"
    using Some
    by (simp add: JSON_stringify_def config_tokens_def lex_pieces
          lex_devices [where rest = "nl 0 @ ''}''", simplified] del: lex_run.simps)
  then show ?thesis by (simp add: tokenize_def)
qed

lemma parse_device:
  "p = PValue \<or> p = PValueOrClose \<Longrightarrow>
   parse_run (p, FArr vs # st) (device_tokens d @ rest) =
     parse_run (PAfter, FArr (vs @ [device_json d]) # st) rest"
  by (auto simp: device_tokens_def device_json_def)

lemma parse_join:
  "ds \<noteq> [] \<Longrightarrow> p = PValue \<or> p = PValueOrClose \<Longrightarrow>
   parse_run (p, FArr vs # st) (join_tokens ds @ rest) =
     parse_run (PAfter, FArr (vs @ map device_json ds) # st) rest"
proof (induction ds arbitrary: p vs rule: join_tokens.induct)
  case 1
  then show ?case by simp
next
  case (2 d)
  then show ?case by (simp add: parse_device)
next
  case (3 d d' ds)
  have "parse_run (p, FArr vs # st) (join_tokens (d # d' # ds) @ rest) =
        parse_run (p, FArr vs # st) (device_tokens d @ (Comma # join_tokens (d' # ds) @ rest))"
    by simp
  also have "\<dots> = parse_run (PAfter, FArr (vs @ [device_json d]) # st)
                       (Comma # join_tokens (d' # ds) @ rest)"
    using "3.prems"(2) by (rule parse_device)
  also have "\<dots> = parse_run (PValue, FArr (vs @ [device_json d]) # st)
                       (join_tokens (d' # ds) @ rest)"
    by simp
  also have "\<dots> = parse_run (PAfter, FArr ((vs @ [device_json d]) @ map device_json (d' # ds)) # st) rest"
    by (rule "3.IH") simp_all
  finally show ?case by simp
qed

lemma parse_config_tokens: "parse_run (PValue, []) (config_tokens cfg) = Some (config_json cfg)"
proof (cases "knownDevices cfg")
  case None
  then show ?thesis by (simp add: config_tokens_def config_json_def)
next
  case (Some ds)
  show ?thesis
  proof (cases "ds = []")
    case True
    with Some show ?thesis by (simp add: config_tokens_def config_json_def)
  next
    case False
    have "parse_run (PValue, []) (config_tokens cfg) =
          parse_run (PValueOrClose, [FArr [], FKey [] (code_units ''knownDevices'')])
            (join_tokens ds @ [RBracket, RBrace])"
      using Some by (simp add: config_tokens_def)
    also have "\<dots> = parse_run (PAfter, [FArr ([] @ map device_json ds),
                                          FKey [] (code_units ''knownDevices'')])
                         [RBracket, RBrace]"
      using False by (intro parse_join) simp_all
    also have "\<dots> = Some (config_json cfg)"
      using Some by (simp add: config_json_def)
    finally show ?thesis .
  qed
qed

lemma JSON_parse_stringify: "JSON_parse (JSON_stringify cfg) = Some (config_json cfg)"
  by (simp add: JSON_parse_def tokenize_stringify parse_config_tokens)

lemma as_string_code_units: "as_string (code_units s) = Some s"
  by (simp add: as_string_def code_units_def list_all_iff comp_def)

lemma as_device_json: "as_device (device_json d) = Some d"
proof -
  have keys: "code_units ''id'' \<noteq> code_units ''ip''" "code_units ''id'' \<noteq> code_units ''model''"
    "code_units ''id'' \<noteq> code_units ''lastConnected''" "code_units ''ip'' \<noteq> code_units ''model''"
    "code_units ''ip'' \<noteq> code_units ''lastConnected''"
    "code_units ''model'' \<noteq> code_units ''lastConnected''"
    by (simp_all add: code_units_def)
  show ?thesis
    using keys by (simp add: device_json_def str_property_def property_def as_string_code_units)
qed

lemma as_devices_json: "as_devices (map device_json ds) = Some ds"
  by (induction ds) (simp_all add: as_device_json)

lemma as_config_json: "as_config (config_json cfg) = Some cfg"
  by (cases "knownDevices cfg")
     (simp_all add: config_json_def property_def as_devices_json)

subsection \<open>The sample network, evaluated\<close>

lemma lan_local: "getLocalIpAddress lan_env = ''192.168.1.5''"
  by (simp add: lan_env_def getLocalIpAddress_def)

lemma lan_ipBase: "ipBase_of ''192.168.1.5'' = ''192.168.1.''"
  by (simp add: ipBase_of_def lastIndexOf_def substring_def startsWith_def Let_def)

lemma lan_candidate:
  "candidate lan_env 5 = ''192.168.1.5''"
  "candidate lan_env 7 = ''192.168.1.7''"
  "candidate lan_env 8 = ''192.168.1.8''"
  "candidate lan_env 12 = ''192.168.1.12''"
  unfolding candidate_def lan_local lan_ipBase by code_simp+

lemma lan_devices:
  "fst (getConnectedDevices lan_env t) =
     [\<lparr>di_id = ''192.168.1.12:5555'', di_status = ''device'', di_model = Some ''Pixel 7'',
        di_androidVersion = Some ''14'', di_manufacturer = Some ''Google'',
        di_wireless = Some True\<rparr>,
      \<lparr>di_id = ''192.168.1.50:5555'', di_status = ''offline'', di_model = None,
        di_androidVersion = None, di_manufacturer = None, di_wireless = None\<rparr>]"
  by (simp add: getConnectedDevices_def execPromise_def lan_env_def lan_listing_def match_line_def
        is_space_def queryProps_def getprop_cmd_def trim_def startsWith_def Let_def)

lemma lan_connected:
  "connected_at lan_env s 5" "\<not> connected_at lan_env s 7" "connected_at lan_env s 12"
  "\<not> connected_at lan_env s 8"
  by (simp_all add: connected_at_def listing_at_def lan_devices lan_candidate
        isAlreadyConnected_def startsWith_def)

lemma lan_probe: "probe_succeeds lan_env ''192.168.1.7''" "\<not> probe_succeeds lan_env ''192.168.1.8''"
  by (simp_all add: probe_succeeds_def lan_env_def connect_cmd_def)

lemma down_local: "getLocalIpAddress daemon_down_env = ''192.168.1.5''"
  by (simp add: daemon_down_env_def lan_env_def getLocalIpAddress_def)

lemma down_candidate: "candidate daemon_down_env (Suc 0) = ''192.168.1.1''"
proof -
  have "candidate daemon_down_env 1 = ''192.168.1.1''"
    unfolding candidate_def down_local lan_ipBase by code_simp
  then show ?thesis by simp
qed

lemma down_fails: "isl (exec_result daemon_down_env n ''adb devices'')"
  by (simp add: daemon_down_env_def)

lemma no_adb_fails: "isl (exec_result no_adb_env n cmd)"
  by (simp add: no_adb_env_def)

lemma not_connected_when_listing_fails:
  "isl (exec_result e (calls (state_at e s i)) ''adb devices'') \<Longrightarrow> \<not> connected_at e s i"
  by (simp add: connected_at_def listing_at_def getConnectedDevices_failed isAlreadyConnected_def)

lemma truncated_is_malformed:
  "JSON_parse (''{'' @ [CHR 0x0A] @ ''  '' @ quote ''knownDevices'' @ '': ['') = None"
  by (simp add: JSON_parse_def tokenize_def quote_def quote_char_def normal_step_def is_json_ws_def
        is_digit_def is_lower_def)

lemma wide_local: "getLocalIpAddress wide_env = ''192.168.1.255''"
  by (simp add: wide_env_def getLocalIpAddress_def)

lemma wide_ipBase: "ipBase_of ''192.168.1.255'' = ''192.168.1.''"
  by (simp add: ipBase_of_def lastIndexOf_def substring_def startsWith_def Let_def)

lemma wide_devices: "map di_id (fst (getConnectedDevices wide_env t)) = [''192.168.1.255:5555'']"
  by (simp add: getConnectedDevices_def execPromise_def wide_env_def match_line_def
        is_space_def Let_def)

lemma wide_listed: "isAlreadyConnected (fst (getConnectedDevices wide_env t)) ''192.168.1.255''"
proof -
  obtain ds where ds: "fst (getConnectedDevices wide_env t) = ds" by simp
  from wide_devices [of t] ds have "map di_id ds = [''192.168.1.255:5555'']" by simp
  then obtain d where "ds = [d]" "di_id d = ''192.168.1.255:5555''" by auto
  then show ?thesis unfolding ds by (simp add: isAlreadyConnected_def startsWith_def)
qed

lemma wide_no_candidate: "i < 255 \<Longrightarrow> candidate wide_env i \<noteq> ''192.168.1.255''"
proof
  assume i: "i < 255" and eq: "candidate wide_env i = ''192.168.1.255''"
  have "show_nat 255 = ''255''" by code_simp
  with eq have "show_nat i = show_nat 255"
    by (simp add: candidate_def wide_local wide_ipBase)
  then have "i = 255" by (rule show_nat_inj)
  with i show False by simp
qed

section \<open>Properties of the discovery sweep\<close>

text \<open>
  Claim C1.  Take any iteration \<open>i\<close> of the sweep (1 to 254) and the device listing the
  sweep obtains in that iteration.  If some listed identifier contains the candidate
  address as a substring, or starts with it, the returned collection holds that address
  with status "connected" and no probe command for it is ever launched.  Conversely, every
  returned host with status "connected" is the candidate of an iteration whose listing
  has an identifier containing that address.
\<close>
theorem listed_candidates_are_connected_and_unprobed:
  "(\<forall>i. 1 \<le> i \<and> i < 255 \<and>
        (\<exists>d \<in> set (listing_at e s i).
            sublist (candidate e i) (di_id d) \<or> prefix (candidate e i) (di_id d)) \<longrightarrow>
        \<lparr>dd_ip = candidate e i, dd_status = ''connected''\<rparr> \<in> set (fst (fst (discoverDevices e s))) \<and>
        connect_cmd (candidate e i) \<notin> set (launched (snd (fst (discoverDevices e s))))) \<and>
   (\<forall>h \<in> set (fst (fst (discoverDevices e s))).
        dd_status h = ''connected'' \<longrightarrow>
        (\<exists>i. 1 \<le> i \<and> i < 255 \<and> dd_ip h = candidate e i \<and>
             (\<exists>d \<in> set (listing_at e s i). sublist (dd_ip h) (di_id d))))"
proof (intro conjI allI impI ballI)
  fix i
  assume a: "1 \<le> i \<and> i < 255 \<and>
        (\<exists>d \<in> set (listing_at e s i).
            sublist (candidate e i) (di_id d) \<or> prefix (candidate e i) (di_id d))"
  then have c: "connected_at e s i"
    unfolding connected_at_iff by auto
  with a show "\<lparr>dd_ip = candidate e i, dd_status = ''connected''\<rparr> \<in> set (fst (fst (discoverDevices e s)))"
    unfolding sweep_result_set by auto
  show "connect_cmd (candidate e i) \<notin> set (launched (snd (fst (discoverDevices e s))))"
    unfolding sweep_launched_iff using c by (auto dest: candidate_inj)
next
  fix h
  assume h: "h \<in> set (fst (fst (discoverDevices e s)))" and st: "dd_status h = ''connected''"
  from h st obtain i where i: "1 \<le> i" "i < 255" "connected_at e s i" "h = \<lparr>dd_ip = candidate e i, dd_status = ''connected''\<rparr>"
    unfolding sweep_result_set by auto
  then show "\<exists>i. 1 \<le> i \<and> i < 255 \<and> dd_ip h = candidate e i \<and>
             (\<exists>d \<in> set (listing_at e s i). sublist (dd_ip h) (di_id d))"
    unfolding connected_at_iff by auto
qed

theorem listed_candidates_are_connected_and_unprobed_witness:
  "\<lparr>dd_ip = ''192.168.1.12'', dd_status = ''connected''\<rparr>
      \<in> set (fst (fst (discoverDevices lan_env fresh_state))) \<and>
   ''adb connect 192.168.1.12:5555'' \<notin> set (launched (snd (fst (discoverDevices lan_env fresh_state)))) \<and>
   (\<exists>i. 1 \<le> i \<and> i < 255 \<and> ''192.168.1.12'' = candidate lan_env i \<and>
        (\<exists>d \<in> set (listing_at lan_env fresh_state i). sublist ''192.168.1.12'' (di_id d)))"
proof -
  have listed: "\<exists>d \<in> set (listing_at lan_env fresh_state 12).
            sublist (candidate lan_env 12) (di_id d) \<or> prefix (candidate lan_env 12) (di_id d)"
    using lan_connected(3) [of fresh_state] unfolding connected_at_iff by auto
  have hyp: "(1::nat) \<le> 12 \<and> (12::nat) < 255 \<and> (\<exists>d \<in> set (listing_at lan_env fresh_state 12).
            sublist (candidate lan_env 12) (di_id d) \<or> prefix (candidate lan_env 12) (di_id d))"
    using listed by simp
  note claim = listed_candidates_are_connected_and_unprobed [of lan_env fresh_state]
  from claim hyp have fwd:
    "\<lparr>dd_ip = candidate lan_env 12, dd_status = ''connected''\<rparr>
        \<in> set (fst (fst (discoverDevices lan_env fresh_state))) \<and>
     connect_cmd (candidate lan_env 12) \<notin> set (launched (snd (fst (discoverDevices lan_env fresh_state))))"
    by blast
  then have mem: "\<lparr>dd_ip = ''192.168.1.12'', dd_status = ''connected''\<rparr>
        \<in> set (fst (fst (discoverDevices lan_env fresh_state)))"
    by (simp add: lan_candidate)
  from claim mem have "\<exists>i. 1 \<le> i \<and> i < 255 \<and> ''192.168.1.12'' = candidate lan_env i \<and>
        (\<exists>d \<in> set (listing_at lan_env fresh_state i). sublist ''192.168.1.12'' (di_id d))"
    by fastforce
  with fwd show ?thesis by (simp add: lan_candidate connect_cmd_def)
qed

text \<open>
  Claim C2.  Whatever the environment, the sweep launches no probe (bridge "connect")
  to the local address: every probe it launches goes to one of the 254 candidates other
  than the local address.
\<close>
theorem local_address_never_probed:
  "connect_cmd (getLocalIpAddress e) \<notin> set (launched (snd (fst (discoverDevices e s)))) \<and>
   set (launched (snd (fst (discoverDevices e s))))
     \<subseteq> connect_cmd ` (candidate e ` {1..<255} - {getLocalIpAddress e})"
  unfolding sweep_launched_iff by (auto simp: sweep_launched)

text \<open>
  Claim C5.  The collection returned by the sweep never holds two entries with the same
  address.
\<close>
theorem result_addresses_distinct:
  "distinct (map dd_ip (fst (fst (discoverDevices e s))))"
  by (rule sweep_distinct)

text \<open>
  Claim C10 says that a local address contained in a listed identifier is always
  returned with status "connected".  The loop forms the candidates with last octet 1 to
  254 only.  On the host whose address is \<open>192.168.1.255\<close>, with \<open>192.168.1.255:5555\<close>
  listed in every iteration, the local address is none of the candidates and the sweep
  returns no entry for it.
\<close>
theorem own_address_outside_the_candidates_counterexample:
  "getLocalIpAddress wide_env = ''192.168.1.255'' \<and>
   map di_id (listing_at wide_env fresh_state 1) = [''192.168.1.255:5555''] \<and>
   map di_id (listing_at wide_env fresh_state 254) = [''192.168.1.255:5555''] \<and>
   isAlreadyConnected (listing_at wide_env fresh_state 254) (getLocalIpAddress wide_env) \<and>
   \<lparr>dd_ip = ''192.168.1.255'', dd_status = ''connected''\<rparr>
      \<notin> set (fst (fst (discoverDevices wide_env fresh_state))) \<and>
   ''192.168.1.255'' \<notin> dd_ip ` set (fst (fst (discoverDevices wide_env fresh_state)))"
proof -
  have "''192.168.1.255'' \<notin> dd_ip ` set (fst (fst (discoverDevices wide_env fresh_state)))"
  proof
    assume "''192.168.1.255'' \<in> dd_ip ` set (fst (fst (discoverDevices wide_env fresh_state)))"
    then obtain i where "i < 255" "candidate wide_env i = ''192.168.1.255''"
      unfolding sweep_result_set by auto
    with wide_no_candidate show False by blast
  qed
  moreover from this have "\<lparr>dd_ip = ''192.168.1.255'', dd_status = ''connected''\<rparr>
      \<notin> set (fst (fst (discoverDevices wide_env fresh_state)))"
    by force
  ultimately show ?thesis
    by (simp add: wide_local listing_at_def wide_devices wide_listed)
qed

text \<open>
  Claim C10, as the code has it.  The exclusion of the local address concerns probing
  only, in the iteration that reaches it: when the local address is one of the 254
  candidates, the candidate of iteration \<open>i\<close>, and the listing obtained there has an
  identifier containing it, the sweep returns the local address with status "connected"
  (and still launches no probe to it).
\<close>
theorem own_address_listed_is_reported_connected:
  assumes "1 \<le> i" and "i < 255" and "candidate e i = getLocalIpAddress e"
    and "\<exists>d \<in> set (listing_at e s i). sublist (getLocalIpAddress e) (di_id d)"
  shows "\<lparr>dd_ip = getLocalIpAddress e, dd_status = ''connected''\<rparr>
           \<in> set (fst (fst (discoverDevices e s))) \<and>
         connect_cmd (getLocalIpAddress e) \<notin> set (launched (snd (fst (discoverDevices e s))))"
proof -
  from assms have "connected_at e s i" unfolding connected_at_iff by simp
  with assms(1-3) show ?thesis
    unfolding sweep_result_set sweep_launched_iff by force
qed

theorem own_address_listed_is_reported_connected_witness:
  "\<lparr>dd_ip = ''192.168.1.5'', dd_status = ''connected''\<rparr>
      \<in> set (fst (fst (discoverDevices lan_env fresh_state))) \<and>
   ''adb connect 192.168.1.5:5555'' \<notin> set (launched (snd (fst (discoverDevices lan_env fresh_state))))"
proof -
  have h1: "(1::nat) \<le> 5" and h2: "(5::nat) < 255" by simp_all
  have h3: "candidate lan_env 5 = getLocalIpAddress lan_env"
    by (simp add: lan_candidate lan_local)
  have h4: "\<exists>d \<in> set (listing_at lan_env fresh_state 5). sublist (getLocalIpAddress lan_env) (di_id d)"
    using lan_connected(1) [of fresh_state] unfolding connected_at_iff h3 .
  from own_address_listed_is_reported_connected [OF h1 h2 h3 h4]
  show ?thesis by (simp add: lan_local connect_cmd_def)
qed

text \<open>
  Claim C4.  When the sweep returns, no launched probe is outstanding: the final join has
  run the continuation of every one of them.  Each launched probe that succeeded has put
  its host into the result with status "discoverable", and a launched probe that failed
  or timed out has left no entry; neither depends on how the other probes ended.  What the
  sweep prints does not depend on the outcomes or the timing of the probes (no line is
  printed for a host), and its last line reports completion.
\<close>
theorem sweep_waits_for_all_probes_and_ignores_failures:
  "pending (snd (fst (discoverDevices e s))) = [] \<and>
   (\<forall>ip. connect_cmd ip \<in> set (launched (snd (fst (discoverDevices e s)))) \<longrightarrow>
      (if probe_succeeds e ip
       then \<lparr>dd_ip = ip, dd_status = ''discoverable''\<rparr> \<in> set (fst (fst (discoverDevices e s)))
       else ip \<notin> dd_ip ` set (fst (fst (discoverDevices e s))))) \<and>
   console (snd (discoverDevices (e\<lparr>probe_result := p, ready := q\<rparr>) s)) =
     console (snd (discoverDevices e s)) \<and>
   last (console (snd (discoverDevices e s))) = SpinnerSucceed ''Device discovery completed''"
proof (intro conjI allI impI)
  show "pending (snd (fst (discoverDevices e s))) = []"
    by (rule discoverDevices_inv(2))
next
  fix ip
  assume "connect_cmd ip \<in> set (launched (snd (fst (discoverDevices e s))))"
  then obtain i where i: "1 \<le> i" "i < 255" "ip = candidate e i" "\<not> connected_at e s i"
      "ip \<noteq> getLocalIpAddress e"
    unfolding sweep_launched_iff by blast
  show "if probe_succeeds e ip
       then \<lparr>dd_ip = ip, dd_status = ''discoverable''\<rparr> \<in> set (fst (fst (discoverDevices e s)))
       else ip \<notin> dd_ip ` set (fst (fst (discoverDevices e s)))"
  proof (cases "probe_succeeds e ip")
    case True
    with i show ?thesis unfolding sweep_result_set by auto
  next
    case False
    with i show ?thesis unfolding sweep_result_set by (auto dest: candidate_inj)
  qed
next
  have eq: "exec_result (e\<lparr>probe_result := p, ready := q\<rparr>) = exec_result e" by simp
  show "console (snd (discoverDevices (e\<lparr>probe_result := p, ready := q\<rparr>) s)) =
     console (snd (discoverDevices e s))"
    unfolding discoverDevices_console state_at_cong [OF eq] ..
next
  show "last (console (snd (discoverDevices e s))) = SpinnerSucceed ''Device discovery completed''"
    unfolding discoverDevices_console by simp
qed

theorem sweep_waits_for_all_probes_and_ignores_failures_witness:
  "''adb connect 192.168.1.7:5555'' \<in> set (launched (snd (fst (discoverDevices lan_env fresh_state)))) \<and>
   \<lparr>dd_ip = ''192.168.1.7'', dd_status = ''discoverable''\<rparr>
      \<in> set (fst (fst (discoverDevices lan_env fresh_state))) \<and>
   ''adb connect 192.168.1.8:5555'' \<in> set (launched (snd (fst (discoverDevices lan_env fresh_state)))) \<and>
   ''192.168.1.8'' \<notin> dd_ip ` set (fst (fst (discoverDevices lan_env fresh_state)))"
proof -
  have l7: "connect_cmd ''192.168.1.7'' \<in> set (launched (snd (fst (discoverDevices lan_env fresh_state))))"
    unfolding sweep_launched_iff
    by (rule exI [of _ 7]) (simp add: lan_candidate lan_connected lan_local)
  have l8: "connect_cmd ''192.168.1.8'' \<in> set (launched (snd (fst (discoverDevices lan_env fresh_state))))"
    unfolding sweep_launched_iff
    by (rule exI [of _ 8]) (simp add: lan_candidate lan_connected lan_local)
  note claim = sweep_waits_for_all_probes_and_ignores_failures [of lan_env fresh_state]
  from claim l7 lan_probe(1)
  have "\<lparr>dd_ip = ''192.168.1.7'', dd_status = ''discoverable''\<rparr>
      \<in> set (fst (fst (discoverDevices lan_env fresh_state)))"
    by metis
  moreover from claim l8 lan_probe(2)
  have "''192.168.1.8'' \<notin> dd_ip ` set (fst (fst (discoverDevices lan_env fresh_state)))"
    by metis
  ultimately show ?thesis using l7 l8 by (simp add: connect_cmd_def)
qed

text \<open>
  Claim C3 says that a failing device listing aborts the sweep with a failure report.
  On the network whose bridge daemon is down every listing fails, yet the sweep probes
  \<open>192.168.1.1\<close> and ends by reporting completion; it never reports failure.
\<close>
theorem listing_failure_aborts_sweep_counterexample:
  "isl (exec_result daemon_down_env (calls (state_at daemon_down_env fresh_state 1)) ''adb devices'') \<and>
   ''adb connect 192.168.1.1:5555''
      \<in> set (launched (snd (fst (discoverDevices daemon_down_env fresh_state)))) \<and>
   last (console (snd (discoverDevices daemon_down_env fresh_state))) =
      SpinnerSucceed ''Device discovery completed'' \<and>
   SpinnerFail ''Device discovery failed''
      \<notin> set (console (snd (discoverDevices daemon_down_env fresh_state)))"
proof -
  have nc: "\<not> connected_at daemon_down_env fresh_state 1"
    by (rule not_connected_when_listing_fails) (rule down_fails)
  have "connect_cmd ''192.168.1.1''
      \<in> set (launched (snd (fst (discoverDevices daemon_down_env fresh_state))))"
    unfolding sweep_launched_iff
    using nc by (intro exI [of _ 1]) (simp add: down_candidate down_local)
  moreover have "SpinnerFail ''Device discovery failed''
      \<notin> set (console (snd (discoverDevices daemon_down_env fresh_state)))"
    using state_at_console_only_listing_errors [of daemon_down_env fresh_state 254]
    unfolding discoverDevices_console by (auto simp: fresh_state_def)
  ultimately show ?thesis
    by (simp add: down_fails connect_cmd_def discoverDevices_console)
qed

text \<open>
  Claim C3, as the code has it.  \<open>getConnectedDevices\<close> catches the failure of the
  listing, prints an error line and yields the empty listing.  So in an iteration whose
  listing fails the candidate is not recorded as connected and, unless it is the local
  address, it is probed; the sweep always ends by reporting completion.  Only the
  \<open>discover\<close> command stops, before any sweep, when \<open>adb version\<close> cannot be run.
\<close>
theorem listing_failure_is_absorbed:
  "(\<forall>i. 1 \<le> i \<and> i < 255 \<and> isl (exec_result e (calls (state_at e s i)) ''adb devices'') \<longrightarrow>
        listing_at e s i = [] \<and>
        ConsoleError ''Error getting devices:'' \<in> set (console (snd (discoverDevices e s))) \<and>
        \<lparr>dd_ip = candidate e i, dd_status = ''connected''\<rparr> \<notin> set (fst (fst (discoverDevices e s))) \<and>
        (candidate e i \<noteq> getLocalIpAddress e \<longrightarrow>
           connect_cmd (candidate e i) \<in> set (launched (snd (fst (discoverDevices e s)))))) \<and>
   last (console (snd (discoverDevices e s))) = SpinnerSucceed ''Device discovery completed'' \<and>
   (isl (exec_result e (calls s) ''adb version'') \<longrightarrow>
      discover_action e s = (None, emit (ConsoleError adb_missing) (s\<lparr>calls := Suc (calls s)\<rparr>)))"
proof (intro conjI allI impI)
  fix i
  assume a: "1 \<le> i \<and> i < 255 \<and> isl (exec_result e (calls (state_at e s i)) ''adb devices'')"
  then have nc: "\<not> connected_at e s i" by (simp add: not_connected_when_listing_fails)
  from a show "listing_at e s i = []"
    by (simp add: listing_at_def getConnectedDevices_failed)
  from a show "ConsoleError ''Error getting devices:'' \<in> set (console (snd (discoverDevices e s)))"
    using listing_failure_logged [of i e s] by simp
  from nc show "\<lparr>dd_ip = candidate e i, dd_status = ''connected''\<rparr> \<notin> set (fst (fst (discoverDevices e s)))"
    unfolding sweep_result_set by (auto dest: candidate_inj)
  assume "candidate e i \<noteq> getLocalIpAddress e"
  with a nc show "connect_cmd (candidate e i) \<in> set (launched (snd (fst (discoverDevices e s))))"
    unfolding sweep_launched_iff by blast
next
  show "last (console (snd (discoverDevices e s))) = SpinnerSucceed ''Device discovery completed''"
    unfolding discoverDevices_console by simp
next
  assume "isl (exec_result e (calls s) ''adb version'')"
  then show "discover_action e s = (None, emit (ConsoleError adb_missing) (s\<lparr>calls := Suc (calls s)\<rparr>))"
    by (auto simp: discover_action_def checkAdbInstalled_def execSync_def split: sum.splits)
qed

theorem listing_failure_is_absorbed_witness:
  "listing_at daemon_down_env fresh_state 1 = [] \<and>
   ConsoleError ''Error getting devices:''
      \<in> set (console (snd (discoverDevices daemon_down_env fresh_state))) \<and>
   \<lparr>dd_ip = ''192.168.1.1'', dd_status = ''connected''\<rparr>
      \<notin> set (fst (fst (discoverDevices daemon_down_env fresh_state))) \<and>
   ''adb connect 192.168.1.1:5555''
      \<in> set (launched (snd (fst (discoverDevices daemon_down_env fresh_state)))) \<and>
   discover_action no_adb_env fresh_state =
     (None, emit (ConsoleError adb_missing) (fresh_state\<lparr>calls := 1\<rparr>))"
proof -
  have h: "(1::nat) \<le> 1 \<and> (1::nat) < 255 \<and>
      isl (exec_result daemon_down_env (calls (state_at daemon_down_env fresh_state 1)) ''adb devices'')"
    by (simp add: down_fails)
  have ne: "candidate daemon_down_env 1 \<noteq> getLocalIpAddress daemon_down_env"
    by (simp add: down_candidate down_local)
  have h2: "isl (exec_result no_adb_env (calls fresh_state) ''adb version'')"
    by (rule no_adb_fails)
  from listing_failure_is_absorbed [of daemon_down_env fresh_state] h ne
  have "listing_at daemon_down_env fresh_state 1 = [] \<and>
        ConsoleError ''Error getting devices:''
          \<in> set (console (snd (discoverDevices daemon_down_env fresh_state))) \<and>
        \<lparr>dd_ip = candidate daemon_down_env 1, dd_status = ''connected''\<rparr>
          \<notin> set (fst (fst (discoverDevices daemon_down_env fresh_state))) \<and>
        connect_cmd (candidate daemon_down_env 1)
          \<in> set (launched (snd (fst (discoverDevices daemon_down_env fresh_state))))"
    by blast
  moreover from listing_failure_is_absorbed [of no_adb_env fresh_state] h2
  have "discover_action no_adb_env fresh_state =
     (None, emit (ConsoleError adb_missing) (fresh_state\<lparr>calls := Suc (calls fresh_state)\<rparr>))"
    by blast
  ultimately show ?thesis
    by (simp add: down_candidate connect_cmd_def fresh_state_def)
qed

section \<open>Properties of the device listing\<close>

text \<open>
  Claim C9 says that the parsed entries of one listing have pairwise distinct identifiers
  whatever the raw listing is.  A listing that prints the same line twice gives two
  entries with the same identifier.
\<close>
theorem listing_ids_unique_counterexample:
  "map di_id (fst (getConnectedDevices dup_env fresh_state)) = [''emulator-5554'', ''emulator-5554''] \<and>
   \<not> distinct (map di_id (fst (getConnectedDevices dup_env fresh_state)))"
  by (simp add: getConnectedDevices_def execPromise_def dup_env_def lan_env_def match_line_def
        is_space_def fresh_state_def Let_def)

text \<open>
  Claim C9, as the code has it.  The identifiers of the parsed entries are, in order, the
  first blank-delimited tokens of the lines after the first that match the pattern (none
  when the listing fails).  The parser neither drops nor merges entries, so the
  identifiers are distinct exactly when those tokens are.
\<close>
theorem listing_ids_follow_the_bridge_output:
  "map di_id (fst (getConnectedDevices e s)) =
     (case exec_result e (calls s) ''adb devices'' of
        Inl err \<Rightarrow> []
      | Inr stdout \<Rightarrow> map fst (List.map_filter match_line (drop 1 (split_str (CHR 0x0A) stdout))))"
  by (simp add: getConnectedDevices_def execPromise_def parseLines_ids split: sum.splits)

section \<open>Properties of enabling wireless debugging\<close>

text \<open>
  Claim C6.  Suppose the device is listed and not yet wireless, its version query
  answers, and the query for its Wi-Fi address (the route table from version 11 on, the
  interface address below) answers with a string that is empty once trimmed.  Then
  \<open>enableWirelessDebugging\<close> returns failure, its last line is the Wi-Fi error, and
  neither the configuration in memory nor the preference file has changed: nothing was
  appended to \<open>knownDevices\<close>.
\<close>
theorem empty_wifi_address_is_reported_and_nothing_is_stored:
  assumes "getConnectedDevices e s = (devices, s1)"
    and "find (\<lambda>d. di_id d = deviceId) devices = Some device"
    and "di_wireless device \<noteq> Some True"
    and "exec_result e (calls s1) (getprop_cmd deviceId ''ro.build.version.release'') = Inr version"
    and "exec_result e (Suc (calls s1))
           (if isAndroid11Plus version then route_cmd deviceId else addr_cmd deviceId) = Inr wifiIp"
    and "trim wifiIp = []"
  shows "fst (enableWirelessDebugging e deviceId s) = False \<and>
         last (console (snd (enableWirelessDebugging e deviceId s))) =
           ConsoleError ''Failed to get device IP address. Make sure Wi-Fi is enabled.'' \<and>
         config (snd (enableWirelessDebugging e deviceId s)) = config s \<and>
         configFile (snd (enableWirelessDebugging e deviceId s)) = configFile s"
proof -
  from getConnectedDevices_config [of e s] assms(1)
  have keep: "config s1 = config s" "configFile s1 = configFile s" by simp_all
  show ?thesis
  proof (cases "isAndroid11Plus version")
    case True
    with assms keep show ?thesis
      by (simp add: enableWirelessDebugging_def switchToTcpip_def execPromise_def emit_def)
  next
    case False
    with assms keep show ?thesis
      by (simp add: enableWirelessDebugging_def switchToTcpip_def execPromise_def emit_def)
  qed
qed

theorem empty_wifi_address_is_reported_and_nothing_is_stored_witness:
  "fst (enableWirelessDebugging usb_env ''R58M45ABCDE'' fresh_state) = False \<and>
   last (console (snd (enableWirelessDebugging usb_env ''R58M45ABCDE'' fresh_state))) =
     ConsoleError ''Failed to get device IP address. Make sure Wi-Fi is enabled.'' \<and>
   config (snd (enableWirelessDebugging usb_env ''R58M45ABCDE'' fresh_state)) = \<lparr>knownDevices = None\<rparr> \<and>
   configFile (snd (enableWirelessDebugging usb_env ''R58M45ABCDE'' fresh_state)) = Absent"
proof -
  let ?device = "\<lparr>di_id = ''R58M45ABCDE'', di_status = ''device'', di_model = Some ''SM-G991B'',
        di_androidVersion = Some ''11'', di_manufacturer = Some ''samsung'',
        di_wireless = Some False\<rparr>"
  have h2: "find (\<lambda>d. di_id d = ''R58M45ABCDE'') [?device] = Some ?device" by simp
  have h3: "di_wireless ?device \<noteq> Some True" by simp
  have h4: "exec_result usb_env (calls (fresh_state\<lparr>calls := 4\<rparr>))
              (getprop_cmd ''R58M45ABCDE'' ''ro.build.version.release'') = Inr (''11'' @ [CHR 0x0A])"
    by (simp add: usb_env_def getprop_cmd_def)
  have v: "isAndroid11Plus (''11'' @ [CHR 0x0A])"
    by (simp add: isAndroid11Plus_def parseInt_def firstPart_def trim_def is_space_def
          radix_digit_def hex_val_def Let_def)
  have h5: "exec_result usb_env (Suc (calls (fresh_state\<lparr>calls := 4\<rparr>)))
              (if isAndroid11Plus (''11'' @ [CHR 0x0A]) then route_cmd ''R58M45ABCDE''
               else addr_cmd ''R58M45ABCDE'') = Inr [CHR 0x0A]"
    unfolding if_P [OF v] by (simp add: usb_env_def getprop_cmd_def route_cmd_def)
  have h6: "trim [CHR 0x0A] = []" by (simp add: trim_def is_space_def)
  from empty_wifi_address_is_reported_and_nothing_is_stored [OF usb_devices h2 h3 h4 h5 h6]
  show ?thesis by (simp add: fresh_state_def)
qed

section \<open>Properties of the preference store\<close>

text \<open>
  Claim C8.  When the preference file is absent, loading leaves \<open>config\<close> at \<open>{}\<close>.  When
  it is present but its text is not valid JSON, the exception of \<open>JSON.parse\<close> is caught:
  an error line is printed and \<open>config\<close> stays \<open>{}\<close>.  In both cases the program goes on
  with a state (nothing is raised), and \<open>{}\<close> reads as the empty known-devices list.
\<close>
theorem load_of_absent_or_malformed_file:
  "(configFile s = Absent \<longrightarrow>
      loadConfig s = Loaded (s\<lparr>config := \<lparr>knownDevices = None\<rparr>\<rparr>)) \<and>
   (configFile s = Content text \<and> JSON_parse text = None \<longrightarrow>
      loadConfig s = Loaded (emit (ConsoleError ''Error loading config:'')
                               (s\<lparr>config := \<lparr>knownDevices = None\<rparr>\<rparr>))) \<and>
   knownList \<lparr>knownDevices = None\<rparr> = []"
  by (simp add: loadConfig_def knownList_def)

theorem load_of_absent_or_malformed_file_witness:
  "loadConfig fresh_state = Loaded fresh_state \<and>
   loadConfig truncated_file_state =
     Loaded (truncated_file_state\<lparr>console := [ConsoleError ''Error loading config:'']\<rparr>)"
proof -
  have a: "configFile fresh_state = Absent" by (simp add: fresh_state_def)
  have b: "configFile truncated_file_state =
             Content (''{'' @ [CHR 0x0A] @ ''  '' @ quote ''knownDevices'' @ '': ['') \<and>
           JSON_parse (''{'' @ [CHR 0x0A] @ ''  '' @ quote ''knownDevices'' @ '': ['') = None"
    using truncated_is_malformed by (simp add: truncated_file_state_def)
  from load_of_absent_or_malformed_file [of fresh_state] a
  have 1: "loadConfig fresh_state = Loaded (fresh_state\<lparr>config := \<lparr>knownDevices = None\<rparr>\<rparr>)"
    by blast
  from load_of_absent_or_malformed_file
         [of truncated_file_state "''{'' @ [CHR 0x0A] @ ''  '' @ quote ''knownDevices'' @ '': [''"] b
  have 2: "loadConfig truncated_file_state =
      Loaded (emit (ConsoleError ''Error loading config:'')
                (truncated_file_state\<lparr>config := \<lparr>knownDevices = None\<rparr>\<rparr>))"
    by blast
  from 1 2 show ?thesis
    by (simp add: fresh_state_def truncated_file_state_def emit_def)
qed

text \<open>
  Claim C7.  Let the configuration hold the known-device records \<open>ds\<close>, any list of any
  length, and let \<open>saveConfig\<close> write it without a file-system error.  A later start of
  the program that finds the file as it was written loads a configuration whose
  \<open>knownDevices\<close> is \<open>ds\<close> again: the same records in the same order, equal in \<open>id\<close>,
  \<open>ip\<close>, \<open>model\<close> and \<open>lastConnected\<close>.
\<close>
theorem saved_devices_are_reloaded:
  assumes "config s = \<lparr>knownDevices = Some ds\<rparr>"
    and "write_failure e (calls s) = None"
    and "configFile t = configFile (snd (saveConfig e s))"
  shows "fst (saveConfig e s) = True \<and>
         loadConfig t = Loaded (t\<lparr>config := \<lparr>knownDevices = Some ds\<rparr>\<rparr>) \<and>
         knownList \<lparr>knownDevices = Some ds\<rparr> = ds"
proof -
  from assms have saved: "configFile t = Content (JSON_stringify \<lparr>knownDevices = Some ds\<rparr>)"
    by (simp add: saveConfig_def)
  show ?thesis
    using assms(2)
    by (simp add: saveConfig_def loadConfig_def saved JSON_parse_stringify as_config_json
          knownList_def)
qed

theorem saved_devices_are_reloaded_witness:
  "loadConfig (fresh_state\<lparr>configFile :=
       configFile (snd (saveConfig lan_env (fresh_state\<lparr>config := \<lparr>knownDevices = Some sample_devices\<rparr>\<rparr>)))\<rparr>) =
   Loaded (fresh_state\<lparr>configFile :=
       configFile (snd (saveConfig lan_env (fresh_state\<lparr>config := \<lparr>knownDevices = Some sample_devices\<rparr>\<rparr>))),
     config := \<lparr>knownDevices = Some sample_devices\<rparr>\<rparr>)"
proof -
  let ?s = "fresh_state\<lparr>config := \<lparr>knownDevices = Some sample_devices\<rparr>\<rparr>"
  let ?t = "fresh_state\<lparr>configFile := configFile (snd (saveConfig lan_env ?s))\<rparr>"
  have h1: "config ?s = \<lparr>knownDevices = Some sample_devices\<rparr>" by simp
  have h2: "write_failure lan_env (calls ?s) = None" by (simp add: lan_env_def)
  have h3: "configFile ?t = configFile (snd (saveConfig lan_env ?s))" by simp
  from saved_devices_are_reloaded [OF h1 h2 h3] show ?thesis by simp
qed

end
